theory Spec2Isabelle
  imports Complex_Main "HOL-Library.Char_ord" "HOL-Library.List_Lexorder"
    "HOL-Library.Multiset" "HOL-Library.Product_Lexorder" "HOL-Library.Sublist"
begin

section \<open>Data model\<close>

text \<open>
  Dates are Python \<open>datetime.date\<close> values and SQL \<open>DATE\<close> columns. They are only
  compared, subtracted and shifted by whole days, so a date is its proleptic Gregorian
  ordinal (\<open>date.toordinal()\<close>): day 1 is 0001-01-01.
\<close>

type_synonym date = int

text \<open>
  The four tables. Field names carry the alias the queries of \<open>dashboard.py\<close> give the
  table (\<open>t.\<close>, \<open>s.\<close>, \<open>c.\<close>, \<open>e.\<close>). Text columns are strings, as in the source, where
  levels and statuses are string literals.
\<close>

record teacher =
  t_id :: int
  t_first_name :: string
  t_last_name :: string
  t_email :: string
  t_bio :: string

record student =
  s_id :: int
  s_first_name :: string
  s_last_name :: string
  s_email :: string
  s_registration_date :: date

record course =
  c_id :: int
  c_title :: string
  c_description :: string
  c_level :: string
  c_credits :: int
  c_start_date :: date
  c_end_date :: date
  c_teacher_id :: int

record enrollment =
  e_id :: int
  e_student_id :: int
  e_course_id :: int
  e_enrollment_date :: date
  e_status :: string
  e_final_grade :: "string option"

text \<open>
  The database: the rows of each table in storage order, and the two sequences that
  generate \<open>student.id\<close> and \<open>enrollment.id\<close>.
\<close>

record database =
  teachers :: "teacher list"
  students :: "student list"
  courses :: "course list"
  enrollments :: "enrollment list"
  student_seq :: int
  enrollment_seq :: int

section \<open>Record Writer (dashboard.py, tab 3)\<close>

text \<open>
  A statement either raises (the message of the exception, and the database as the
  failed statement leaves it inside its transaction) or returns the new database and its
  result. \<open>run_exec\<close> opens a transaction with \<open>engine.begin()\<close>, executes the one
  statement it is given, and leaves the \<open>with\<close> block: commit when the statement
  returned, rollback and re-raise when it raised. The transaction therefore spans exactly
  one statement.

  A rollback restores the rows of the tables. The sequences are not transactional: a
  value drawn with \<open>nextval\<close> is never given back, so they keep the value they have
  reached when the transaction is rolled back.
\<close>

type_synonym 'r statement = "database \<Rightarrow> (string \<times> database) + (database \<times> 'r)"

definition rollback :: "database \<Rightarrow> database \<Rightarrow> database" where
  "rollback at_begin reached =
     reached\<lparr>teachers := teachers at_begin, students := students at_begin,
             courses := courses at_begin, enrollments := enrollments at_begin\<rparr>"

definition run_exec :: "'r statement \<Rightarrow> database \<Rightarrow> database \<times> (string + 'r)" where
  "run_exec stmt db =
     (case stmt db of
        Inl (msg, reached) \<Rightarrow> (rollback db reached, Inl msg)
      | Inr (db', r) \<Rightarrow> (db', Inr r))"

text \<open>
  The table definitions (DDL) are not among the sources, so what the storage layer checks
  on an insert is a parameter: a check returns the message of the exception the storage
  raises for the row, or \<open>None\<close> when it accepts the row.
\<close>

record storage =
  student_check :: "database \<Rightarrow> string \<times> string \<times> string \<times> date \<Rightarrow> string option"
  enrollment_check :: "database \<Rightarrow> int \<times> int \<Rightarrow> string option"

text \<open>
  \<open>INSERT INTO student (first_name, last_name, email, registration_date) ... RETURNING id\<close>.
  The statement names no \<open>id\<close>: the column takes the next value of its sequence, which
  is drawn when the row is formed, before the storage checks the row. A rejected row has
  therefore used up its id.
\<close>

definition insert_student ::
  "storage \<Rightarrow> string \<Rightarrow> string \<Rightarrow> string \<Rightarrow> date \<Rightarrow> int statement" where
  "insert_student S fname lname em reg_date db =
     (let new_id = student_seq db;
          drawn = db\<lparr>student_seq := new_id + 1\<rparr>;
          row = \<lparr>s_id = new_id, s_first_name = fname, s_last_name = lname, s_email = em,
                 s_registration_date = reg_date\<rparr>
      in case student_check S db (fname, lname, em, reg_date) of
           Some msg \<Rightarrow> Inl (msg, drawn)
         | None \<Rightarrow> Inr (drawn\<lparr>students := students db @ [row]\<rparr>, new_id))"

text \<open>
  \<open>INSERT INTO enrollment (student_id, course_id, enrollment_date, status)
   VALUES (:sid, :cid, CURRENT_DATE, 'active')\<close>; \<open>final_grade\<close> is left \<open>NULL\<close>, and the
  \<open>id\<close> is drawn from its sequence as above.
\<close>

definition new_enrollment :: "int \<Rightarrow> int \<Rightarrow> int \<Rightarrow> date \<Rightarrow> enrollment" where
  "new_enrollment new_id sid cid current_date =
     \<lparr>e_id = new_id, e_student_id = sid, e_course_id = cid,
      e_enrollment_date = current_date, e_status = ''active'', e_final_grade = None\<rparr>"

definition insert_enrollment :: "storage \<Rightarrow> date \<Rightarrow> int \<Rightarrow> int \<Rightarrow> unit statement" where
  "insert_enrollment S current_date sid cid db =
     (let new_id = enrollment_seq db;
          drawn = db\<lparr>enrollment_seq := new_id + 1\<rparr>
      in case enrollment_check S db (sid, cid) of
           Some msg \<Rightarrow> Inl (msg, drawn)
         | None \<Rightarrow>
             Inr (drawn\<lparr>enrollments :=
                          enrollments db @ [new_enrollment new_id sid cid current_date]\<rparr>, ()))"

text \<open>
  The loop \<open>for label in selected_courses_labels\<close>: look the label up in the dictionary
  \<open>course_options\<close> (a missing key raises \<open>KeyError\<close>, whose message is the quoted key)
  and insert the enrollment with its own \<open>run_exec\<close>. The first exception leaves the loop.
\<close>

definition key_error :: "string \<Rightarrow> string" where
  "key_error label = CHR 0x27 # label @ [CHR 0x27]"

fun enroll_selected ::
  "storage \<Rightarrow> date \<Rightarrow> (string \<rightharpoonup> int) \<Rightarrow> int \<Rightarrow> string list \<Rightarrow> database
   \<Rightarrow> database \<times> (string + unit)" where
  "enroll_selected S current_date course_options sid [] db = (db, Inr ())"
| "enroll_selected S current_date course_options sid (label # labels) db =
     (case course_options label of
        None \<Rightarrow> (db, Inl (key_error label))
      | Some course_id \<Rightarrow>
          (case run_exec (insert_enrollment S current_date sid course_id) db of
             (db', Inl msg) \<Rightarrow> (db', Inl msg)
           | (db', Inr _) \<Rightarrow> enroll_selected S current_date course_options sid labels db'))"

text \<open>What the page shows after the submission (\<open>st.error\<close>, \<open>st.success\<close> or nothing).\<close>

datatype message =
  No_message
  | Required_error
  | Duplicate_email_error
  | Saving_error string
  | Success int nat

text \<open>\<open>needle in msg\<close> on Python strings.\<close>

definition contains :: "string \<Rightarrow> string \<Rightarrow> bool" where
  "contains msg needle = sublist needle msg"

definition report_exception :: "string \<Rightarrow> message" where
  "report_exception msg =
     (if contains msg ''duplicate key value violates unique constraint''
         \<and> (contains msg ''student_email_key'' \<or> contains msg ''email'')
      then Duplicate_email_error
      else Saving_error msg)"

text \<open>
  The submission handler (\<open>if submitted: ...\<close>). An empty Python string is falsy, so
  \<open>not first_name\<close> is \<open>first_name = []\<close>.
\<close>

definition add_student_form ::
  "storage \<Rightarrow> date \<Rightarrow> (string \<rightharpoonup> int) \<Rightarrow> bool \<Rightarrow> string \<Rightarrow> string \<Rightarrow> string \<Rightarrow> date
   \<Rightarrow> string list \<Rightarrow> database \<Rightarrow> database \<times> message" where
  "add_student_form S current_date course_options submitted first_name last_name email
     registration_date selected_courses_labels db =
     (if \<not> submitted then (db, No_message)
      else if first_name = [] \<or> last_name = [] \<or> email = [] then (db, Required_error)
      else
        (case run_exec (insert_student S first_name last_name email registration_date) db of
           (db1, Inl msg) \<Rightarrow> (db1, report_exception msg)
         | (db1, Inr new_student_id) \<Rightarrow>
             (case enroll_selected S current_date course_options new_student_id
                     selected_courses_labels db1 of
                (db2, Inl msg) \<Rightarrow> (db2, report_exception msg)
              | (db2, Inr _) \<Rightarrow>
                  (db2, Success new_student_id (length selected_courses_labels)))))"

subsection \<open>The databases a submission can leave\<close>

text \<open>
  The database once the student row of a submission is committed, and the database once
  the enrollment rows of a list of courses are committed one after the other.
\<close>

definition after_student :: "string \<Rightarrow> string \<Rightarrow> string \<Rightarrow> date \<Rightarrow> database \<Rightarrow> database" where
  "after_student fname lname em reg_date db =
     db\<lparr>students := students db @
          [\<lparr>s_id = student_seq db, s_first_name = fname, s_last_name = lname, s_email = em,
            s_registration_date = reg_date\<rparr>],
        student_seq := student_seq db + 1\<rparr>"

fun after_enrollments :: "date \<Rightarrow> int \<Rightarrow> int list \<Rightarrow> database \<Rightarrow> database" where
  "after_enrollments current_date sid [] db = db"
| "after_enrollments current_date sid (cid # cids) db =
     after_enrollments current_date sid cids
       (db\<lparr>enrollments := enrollments db @ [new_enrollment (enrollment_seq db) sid cid current_date],
           enrollment_seq := enrollment_seq db + 1\<rparr>)"

subsection \<open>The constraints of the schema\<close>

text \<open>
  Modelled from the spec: the constraints of the schema, whose DDL is not among the
  sources. Section 3 of the specification: a student's email is unique, enforced by the
  storage layer; every enrollment references an existing student and an existing course.
  The messages are the ones PostgreSQL raises; \<open>report_exception\<close> looks for the first.
\<close>

definition schema_storage :: storage where
  "schema_storage =
     \<lparr>student_check = (\<lambda>db (fname, lname, em, reg_date).
        if em \<in> set (map s_email (students db))
        then Some ''duplicate key value violates unique constraint student_email_key''
        else None),
      enrollment_check = (\<lambda>db (sid, cid).
        if sid \<notin> set (map s_id (students db))
        then Some ''violates foreign key constraint enrollment_student_id_fkey''
        else if cid \<notin> set (map c_id (courses db))
        then Some ''violates foreign key constraint enrollment_course_id_fkey''
        else None)\<rparr>"

subsection \<open>A small database\<close>

text \<open>
  One teacher, two courses, one student enrolled in the first course. The theorems
  below are applied to it.
\<close>

definition example_db :: database where
  "example_db =
     \<lparr>teachers = [\<lparr>t_id = 1, t_first_name = ''Grace'', t_last_name = ''Hopper'',
                    t_email = ''grace.hopper1@example.edu'', t_bio = ''Compilers.''\<rparr>],
      students = [\<lparr>s_id = 1, s_first_name = ''Amanda'', s_last_name = ''Gill'',
                    s_email = ''amanda.gill1@student.example.com'',
                    s_registration_date = 738000\<rparr>],
      courses = [\<lparr>c_id = 1, c_title = ''Introduction to SQL #1'', c_description = ''Queries.'',
                   c_level = ''Beginner'', c_credits = 3, c_start_date = 738600,
                   c_end_date = 738660, c_teacher_id = 1\<rparr>,
                 \<lparr>c_id = 2, c_title = ''Linux for Developers #2'', c_description = ''Shells.'',
                   c_level = ''Advanced'', c_credits = 4, c_start_date = 738500,
                   c_end_date = 738560, c_teacher_id = 1\<rparr>],
      enrollments = [\<lparr>e_id = 1, e_student_id = 1, e_course_id = 1,
                       e_enrollment_date = 738590, e_status = ''active'',
                       e_final_grade = None\<rparr>],
      student_seq = 2,
      enrollment_seq = 2\<rparr>"

text \<open>The second course of \<open>example_db\<close>, in which nobody is enrolled.\<close>

definition linux_course :: course where
  "linux_course =
     \<lparr>c_id = 2, c_title = ''Linux for Developers #2'', c_description = ''Shells.'',
      c_level = ''Advanced'', c_credits = 4, c_start_date = 738500,
      c_end_date = 738560, c_teacher_id = 1\<rparr>"

section \<open>Report Engine: student search (dashboard.py, tab 2)\<close>

subsection \<open>The \<open>ILIKE\<close> operator\<close>

text \<open>
  The query matches with \<open>column ILIKE '%' || :term || '%'\<close>. The search term is bound as
  it was typed, so it is part of a \<open>LIKE\<close> pattern: \<open>%\<close> stands for any string, \<open>_\<close> for
  any single character, and a backslash (the default escape character) makes the
  character after it literal. A pattern that ends with a lone backslash is an error.
\<close>

datatype like_token = Any_string | Any_char | Literal char

definition like_token :: "char \<Rightarrow> like_token" where
  "like_token c =
     (if c = CHR ''%'' then Any_string else if c = CHR ''_'' then Any_char else Literal c)"

fun like_tokens :: "string \<Rightarrow> like_token list option" where
  "like_tokens [] = Some []"
| "like_tokens [c] = (if c = CHR 0x5C then None else Some [like_token c])"
| "like_tokens (c # d # cs) =
     (if c = CHR 0x5C then map_option (Cons (Literal d)) (like_tokens cs)
      else map_option (Cons (like_token c)) (like_tokens (d # cs)))"

fun like_match :: "like_token list \<Rightarrow> string \<Rightarrow> bool" where
  "like_match [] s = (s = [])"
| "like_match (Literal c # ts) [] = False"
| "like_match (Literal c # ts) (x # xs) = (x = c \<and> like_match ts xs)"
| "like_match (Any_char # ts) [] = False"
| "like_match (Any_char # ts) (x # xs) = like_match ts xs"
| "like_match (Any_string # ts) [] = like_match ts []"
| "like_match (Any_string # ts) (x # xs) =
     (like_match ts (x # xs) \<or> like_match (Any_string # ts) xs)"

text \<open>
  \<open>ILIKE\<close> folds the case of the string and of the pattern and matches the results.
  How case is folded, and how text is ordered, depends on the collation the database was
  created with, which is not among the sources: it is a parameter. So is the order in
  which \<open>ORDER BY last_name, first_name\<close> returns rows whose names are equal, which SQL
  leaves to the executor.
\<close>

record collation =
  fold_case :: "string \<Rightarrow> string"
  text_le :: "string \<Rightarrow> string \<Rightarrow> bool"
  order_by_name :: "student list \<Rightarrow> student list"

definition ilike :: "collation \<Rightarrow> like_token list \<Rightarrow> string \<Rightarrow> bool" where
  "ilike C folded_pattern s = like_match folded_pattern (fold_case C s)"

subsection \<open>The query\<close>

text \<open>
  The \<open>WHERE\<close> clause of \<open>query_students\<close>: first name, last name, email, or first name,
  a space and last name.
\<close>

definition student_matches :: "collation \<Rightarrow> like_token list \<Rightarrow> student \<Rightarrow> bool" where
  "student_matches C pat s =
     (ilike C pat (s_first_name s) \<or> ilike C pat (s_last_name s) \<or> ilike C pat (s_email s)
      \<or> ilike C pat (s_first_name s @ '' '' @ s_last_name s))"

text \<open>The rows that match, \<open>ORDER BY last_name, first_name LIMIT 50\<close>.\<close>

definition query_students :: "collation \<Rightarrow> string \<Rightarrow> database \<Rightarrow> string + student list" where
  "query_students C search_term db =
     (case like_tokens (fold_case C (''%'' @ search_term @ ''%'')) of
        None \<Rightarrow> Inl ''LIKE pattern must not end with escape character''
      | Some pat \<Rightarrow>
          Inr (take 50 (order_by_name C (filter (student_matches C pat) (students db)))))"

text \<open>\<open>if search_term:\<close> the query runs for a non-empty term only.\<close>

definition student_search ::
  "collation \<Rightarrow> string \<Rightarrow> database \<Rightarrow> (string + student list) option" where
  "student_search C search_term db =
     (if search_term = [] then None else Some (query_students C search_term db))"

subsection \<open>What is taken for granted of a collation\<close>

text \<open>The characters that are not literal in a \<open>LIKE\<close> pattern.\<close>

definition like_meta :: "char \<Rightarrow> bool" where
  "like_meta c = (c = CHR ''%'' \<or> c = CHR ''_'' \<or> c = CHR 0x5C)"

text \<open>
  Row \<open>a\<close> may come before row \<open>b\<close> under \<open>ORDER BY last_name, first_name\<close>: its last
  name sorts strictly before, or the last names sort equal and its first name does not
  sort after.
\<close>

definition name_le :: "collation \<Rightarrow> student \<Rightarrow> student \<Rightarrow> bool" where
  "name_le C a b =
     ((text_le C (s_last_name a) (s_last_name b) \<and> \<not> text_le C (s_last_name b) (s_last_name a))
      \<or> (text_le C (s_last_name a) (s_last_name b) \<and> text_le C (s_last_name b) (s_last_name a)
          \<and> text_le C (s_first_name a) (s_first_name b)))"

text \<open>
  Folding the case goes character by character and touches letters only: the percent
  signs around a term stay where they are, and the folded text has no \<open>%\<close>, \<open>_\<close> or
  backslash that the text did not have. \<open>ORDER BY\<close> returns the rows it was given, each as
  often as it was given, every row placed before the rows that sort after it.
\<close>

definition collation_ok :: "collation \<Rightarrow> bool" where
  "collation_ok C =
     ((\<forall>t. fold_case C (''%'' @ t @ ''%'') = ''%'' @ fold_case C t @ ''%'') \<and>
      (\<forall>t c. like_meta c \<and> c \<in> set (fold_case C t) \<longrightarrow> c \<in> set t) \<and>
      (\<forall>rows. mset (order_by_name C rows) = mset rows \<and>
               sorted_wrt (name_le C) (order_by_name C rows)))"

subsection \<open>The collation \<open>C\<close>\<close>

text \<open>
  The collation named \<open>C\<close>: characters are bytes, the case of the letters \<open>A\<close> to \<open>Z\<close>
  (codes 65 to 90) is folded and of no other byte, text is ordered byte by byte. The
  sort is the stable one: rows with equal names keep their storage order.
\<close>

definition lower_char :: "char \<Rightarrow> char" where
  "lower_char c =
     (if 65 \<le> (of_char c :: nat) \<and> (of_char c :: nat) \<le> 90
      then char_of (of_char c + 32 :: nat) else c)"

definition lower :: "string \<Rightarrow> string" where
  "lower s = map lower_char s"

definition name_key :: "student \<Rightarrow> string \<times> string" where
  "name_key s = (s_last_name s, s_first_name s)"

definition c_collation :: collation where
  "c_collation =
     \<lparr>fold_case = lower, text_le = (\<le>), order_by_name = sort_key name_key\<rparr>"

subsection \<open>What the specification says of the search\<close>

text \<open>
  The words of the specification: \<open>s\<close> contains the term as a case-insensitive substring,
  that is, once the case of both is folded.
\<close>

definition icontains :: "collation \<Rightarrow> string \<Rightarrow> string \<Rightarrow> bool" where
  "icontains C s search_term = sublist (fold_case C search_term) (fold_case C s)"

text \<open>
  The search as the specification words it: a match on the first name, the last name or
  the two joined by a space.
\<close>

definition name_contains :: "collation \<Rightarrow> string \<Rightarrow> student \<Rightarrow> bool" where
  "name_contains C search_term s =
     (icontains C (s_first_name s) search_term \<or> icontains C (s_last_name s) search_term
      \<or> icontains C (s_first_name s @ '' '' @ s_last_name s) search_term)"

text \<open>The same with the email, the fourth column the query looks at.\<close>

definition name_or_email_contains :: "collation \<Rightarrow> string \<Rightarrow> student \<Rightarrow> bool" where
  "name_or_email_contains C search_term s =
     (icontains C (s_first_name s) search_term \<or> icontains C (s_last_name s) search_term
      \<or> icontains C (s_email s) search_term
      \<or> icontains C (s_first_name s @ '' '' @ s_last_name s) search_term)"

text \<open>A student whose email holds a backslash, alone in the table.\<close>

definition backslash_db :: database where
  "backslash_db =
     example_db\<lparr>students :=
       [\<lparr>s_id = 7, s_first_name = ''Bob'', s_last_name = ''Ray'',
         s_email = ''bob'' @ [CHR 0x5C] @ ''ray@student.example.com'',
         s_registration_date = 738100\<rparr>]\<rparr>"

section \<open>Report Engine: course overview (dashboard.py, tab 1)\<close>

subsection \<open>The filters\<close>

text \<open>
  The entries of the list \<open>filters\<close>, each with its bound parameter:
  \<open>c.teacher_id = :teacher_id\<close>, \<open>c.level = ANY(:levels)\<close>, \<open>c.start_date >= :start_date\<close> and
  \<open>c.start_date <= :end_date\<close>.
\<close>

datatype course_filter =
  Teacher_id_eq int
  | Level_any "string list"
  | Start_date_ge date
  | Start_date_le date

fun filter_holds :: "course_filter \<Rightarrow> course \<Rightarrow> bool" where
  "filter_holds (Teacher_id_eq teacher_id) c = (c_teacher_id c = teacher_id)"
| "filter_holds (Level_any levels) c = (c_level c \<in> set levels)"
| "filter_holds (Start_date_ge start_date) c = (c_start_date c \<ge> start_date)"
| "filter_holds (Start_date_le end_date) c = (c_start_date c \<le> end_date)"

text \<open>
  The selected teacher. \<open>teachers_df\<close> holds the rows (id, name) of the teachers; the
  select box returns a name or \<open>All\<close>, and the id is the one of the first row with that name
  (\<open>.iloc[0]\<close>, which raises \<open>IndexError\<close> when no row has it).
\<close>

definition selected_teacher :: "(int \<times> string) list \<Rightarrow> string \<Rightarrow> string + int option" where
  "selected_teacher teachers_df teacher_choice =
     (if teacher_choice \<noteq> ''All'' then
        (case filter (\<lambda>(i, name). name = teacher_choice) teachers_df of
           [] \<Rightarrow> Inl ''IndexError: single positional indexer is out-of-bounds''
         | (i, name) # _ \<Rightarrow> Inr (Some i))
      else Inr None)"

text \<open>
  Building the list: a filter is appended when its input is truthy. An empty list of
  levels is falsy; a date never is, and \<open>None\<close> stands for a bound that is not set.
\<close>

definition build_filters ::
  "int option \<Rightarrow> string list \<Rightarrow> date option \<Rightarrow> date option \<Rightarrow> course_filter list" where
  "build_filters teacher level_filter start_filter end_filter =
     (case teacher of None \<Rightarrow> [] | Some teacher_id \<Rightarrow> [Teacher_id_eq teacher_id])
     @ (if level_filter \<noteq> [] then [Level_any level_filter] else [])
     @ (case start_filter of None \<Rightarrow> [] | Some d \<Rightarrow> [Start_date_ge d])
     @ (case end_filter of None \<Rightarrow> [] | Some d \<Rightarrow> [Start_date_le d])"

text \<open>
  \<open>"WHERE " + " AND ".join(filters)\<close>, and no \<open>WHERE\<close> clause for the empty list: the
  conjunction of the filters.
\<close>

definition where_clause :: "course_filter list \<Rightarrow> course \<Rightarrow> bool" where
  "where_clause filters c = list_all (\<lambda>f. filter_holds f c) filters"

subsection \<open>The query\<close>

text \<open>
  \<open>FROM course c JOIN teacher t ON t.id = c.teacher_id
   LEFT JOIN enrollment e ON e.course_id = c.id\<close>:
  a course with its teacher and each of its enrollments, or once with no enrollment
  (the columns of \<open>e\<close> are \<open>NULL\<close>) when it has none.
\<close>

type_synonym joined_row = "course \<times> teacher \<times> enrollment option"

definition left_join_enrollment :: "database \<Rightarrow> course \<Rightarrow> teacher \<Rightarrow> joined_row list" where
  "left_join_enrollment db c t =
     (case filter (\<lambda>e. e_course_id e = c_id c) (enrollments db) of
        [] \<Rightarrow> [(c, t, None)]
      | es \<Rightarrow> map (\<lambda>e. (c, t, Some e)) es)"

definition from_clause :: "database \<Rightarrow> joined_row list" where
  "from_clause db =
     concat (map (\<lambda>c.
       concat (map (\<lambda>t. left_join_enrollment db c t)
         (filter (\<lambda>t. t_id t = c_teacher_id c) (teachers db))))
       (courses db))"

text \<open>\<open>t.first_name || ' ' || t.last_name AS teacher_name\<close>\<close>

definition full_name :: "teacher \<Rightarrow> string" where
  "full_name t = t_first_name t @ '' '' @ t_last_name t"

text \<open>\<open>GROUP BY c.id, c.title, c.level, c.start_date, c.end_date, teacher_name\<close>\<close>

type_synonym group_key = "int \<times> string \<times> string \<times> date \<times> date \<times> string"

definition group_key :: "joined_row \<Rightarrow> group_key" where
  "group_key = (\<lambda>(c, t, e).
     (c_id c, c_title c, c_level c, c_start_date c, c_end_date c, full_name t))"

definition group_by :: "('r \<Rightarrow> 'k) \<Rightarrow> 'r list \<Rightarrow> ('k \<times> 'r list) list" where
  "group_by key rows = map (\<lambda>k. (k, filter (\<lambda>r. key r = k) rows)) (remdups (map key rows))"

text \<open>
  The aggregates over the rows of a group. \<open>COUNT(e.id)\<close> counts the rows whose \<open>e.id\<close> is
  not \<open>NULL\<close>; \<open>SUM(CASE WHEN e.status = 'active' THEN 1 ELSE 0 END)\<close> adds 1 for each row
  with that status and 0 for the others, the row without enrollment among them.
\<close>

definition count_e_id :: "joined_row list \<Rightarrow> int" where
  "count_e_id rows = int (length (filter (\<lambda>(c, t, e). e \<noteq> None) rows))"

definition sum_case_status :: "string \<Rightarrow> joined_row list \<Rightarrow> int" where
  "sum_case_status status rows =
     sum_list (map (\<lambda>(c, t, e).
       case e of None \<Rightarrow> 0 | Some e \<Rightarrow> if e_status e = status then 1 else 0) rows)"

record course_stats =
  r_id :: int
  r_title :: string
  r_level :: string
  r_start_date :: date
  r_end_date :: date
  r_teacher_name :: string
  total_enrollments :: int
  active_count :: int
  completed_count :: int
  dropped_count :: int

definition select_row :: "group_key \<times> joined_row list \<Rightarrow> course_stats" where
  "select_row = (\<lambda>((cid, title, level, start_date, end_date, teacher_name), rows).
     \<lparr>r_id = cid, r_title = title, r_level = level, r_start_date = start_date,
      r_end_date = end_date, r_teacher_name = teacher_name,
      total_enrollments = count_e_id rows,
      active_count = sum_case_status ''active'' rows,
      completed_count = sum_case_status ''completed'' rows,
      dropped_count = sum_case_status ''dropped'' rows\<rparr>)"

text \<open>
  The whole statement, with \<open>ORDER BY c.start_date\<close> last. SQL leaves the order of rows
  with equal start dates open; here they keep the order of their groups.
\<close>

definition query_courses_stats :: "course_filter list \<Rightarrow> database \<Rightarrow> course_stats list" where
  "query_courses_stats filters db =
     sort_key r_start_date
       (map select_row
         (group_by group_key
           (filter (\<lambda>(c, t, e). where_clause filters c) (from_clause db))))"

text \<open>The joined rows the \<open>WHERE\<close> clause keeps.\<close>

definition selected_rows :: "course_filter list \<Rightarrow> database \<Rightarrow> joined_row list" where
  "selected_rows filters db = filter (\<lambda>(c, t, e). where_clause filters c) (from_clause db)"

text \<open>The tab: resolve the teacher, build the filters, run the query.\<close>

definition course_overview ::
  "(int \<times> string) list \<Rightarrow> string \<Rightarrow> string list \<Rightarrow> date option \<Rightarrow> date option \<Rightarrow> database
   \<Rightarrow> string + course_stats list" where
  "course_overview teachers_df teacher_choice level_filter start_filter end_filter db =
     (case selected_teacher teachers_df teacher_choice of
        Inl msg \<Rightarrow> Inl msg
      | Inr teacher \<Rightarrow>
          Inr (query_courses_stats
                 (build_filters teacher level_filter start_filter end_filter) db))"

subsection \<open>What the specification says of the overview\<close>

text \<open>
  The filter set of the specification: an optional teacher id, a set of levels and a
  range of dates. A course is selected when its teacher is the selected one (any teacher
  when none is selected), its level is in the set (any level when the set is empty) and
  its start date is in the range, both ends included.
\<close>

definition course_selected :: "int option \<Rightarrow> string list \<Rightarrow> date \<Rightarrow> date \<Rightarrow> course \<Rightarrow> bool" where
  "course_selected teacher levels range_start range_end c =
     ((case teacher of None \<Rightarrow> True | Some teacher_id \<Rightarrow> c_teacher_id c = teacher_id)
      \<and> (levels = [] \<or> c_level c \<in> set levels)
      \<and> range_start \<le> c_start_date c \<and> c_start_date c \<le> range_end)"

text \<open>
  The constraints of the schema the overview relies on (section 3 of the
  specification): course ids and teacher ids are unique, and the teacher of every course
  exists.
\<close>

definition schema_keys :: "database \<Rightarrow> bool" where
  "schema_keys db =
     (distinct (map c_id (courses db)) \<and> distinct (map t_id (teachers db))
      \<and> list_all (\<lambda>c. c_teacher_id c \<in> set (map t_id (teachers db))) (courses db))"

section \<open>Data Generator (generate_data.py)\<close>

subsection \<open>Dates and exceptions\<close>

datatype py_exception = ValueError | IndexError | OverflowError

text \<open>
  \<open>date(year, month, day).toordinal()\<close>, as \<open>datetime\<close> computes it, for a valid date.
\<close>

definition is_leap :: "int \<Rightarrow> bool" where
  "is_leap y = (y mod 4 = 0 \<and> (y mod 100 \<noteq> 0 \<or> y mod 400 = 0))"

definition days_before_year :: "int \<Rightarrow> int" where
  "days_before_year y = (y - 1) * 365 + (y - 1) div 4 - (y - 1) div 100 + (y - 1) div 400"

definition days_before_month :: "int \<Rightarrow> int \<Rightarrow> int" where
  "days_before_month y m =
     [0, 31, 59, 90, 120, 151, 181, 212, 243, 273, 304, 334] ! nat (m - 1)
     + (if m > 2 \<and> is_leap y then 1 else 0)"

definition ymd2ord :: "int \<Rightarrow> int \<Rightarrow> int \<Rightarrow> date" where
  "ymd2ord y m d = days_before_year y + days_before_month y m + d"

text \<open>
  \<open>date + timedelta(days=n)\<close>: a date outside the years 1 to 9999 (ordinals 1 to 3652059)
  raises \<open>OverflowError\<close>.
\<close>

definition date_add :: "date \<Rightarrow> int \<Rightarrow> py_exception + date" where
  "date_add d n = (if 1 \<le> d + n \<and> d + n \<le> 3652059 then Inr (d + n) else Inl OverflowError)"

subsection \<open>The module \<open>random\<close>\<close>

text \<open>
  The module \<open>random\<close> is not part of the repository. It is a parameter: a state \<open>'g\<close>
  (what \<open>random.seed(42)\<close> initialises) and the three functions of the module that the
  generator is built on. \<open>rng_randbelow n\<close> is \<open>Random._randbelow(n)\<close>, on which
  \<open>randint\<close> is built; \<open>rng_sample n k\<close> gives the positions that \<open>random.sample\<close> selects
  for \<open>k\<close> items out of \<open>n\<close>; \<open>rng_choices population weights\<close> is
  \<open>random.choices(population, weights=weights, k=1)[0]\<close>, the item chosen or the exception
  raised. Each returns the next state.

  The weights are handed over as the decimal numbers the source writes. The floats that
  Python reads them as, the sums \<open>random.choices\<close> forms of them and the float it draws
  are inside the parameter.
\<close>

record 'g random_source =
  rng_randbelow :: "nat \<Rightarrow> 'g \<Rightarrow> nat \<times> 'g"
  rng_sample :: "nat \<Rightarrow> nat \<Rightarrow> 'g \<Rightarrow> nat list \<times> 'g"
  rng_choices :: "string list \<Rightarrow> rat list \<Rightarrow> 'g \<Rightarrow> py_exception + (string \<times> 'g)"

text \<open>
  What \<open>random\<close> documents of the first two: an integer below \<open>n\<close>, and \<open>k\<close> distinct
  positions below \<open>n\<close>.
\<close>

definition rng_ok :: "'g random_source \<Rightarrow> bool" where
  "rng_ok R =
     ((\<forall>n g. 0 < n \<longrightarrow> fst (rng_randbelow R n g) < n)
      \<and> (\<forall>n k g. k \<le> n \<longrightarrow>
            length (fst (rng_sample R n k g)) = k \<and> distinct (fst (rng_sample R n k g))
            \<and> (\<forall>i\<in>set (fst (rng_sample R n k g)). i < n)))"

text \<open>
  What it documents of \<open>random.choices\<close>: it returns an item of the population. This is
  taken for granted for as many weights as items, each of them 0 or between 0.01 and 1,
  and not all of them 0 (the total of the weights must be positive).
\<close>

definition choices_ok :: "'g random_source \<Rightarrow> bool" where
  "choices_ok R =
     (\<forall>population weights g.
        length weights = length population
        \<and> (\<forall>w\<in>set weights. w = 0 \<or> (1 / 100 \<le> w \<and> w \<le> 1))
        \<and> (\<exists>w\<in>set weights. w \<noteq> 0)
        \<longrightarrow> (\<exists>a g'. rng_choices R population weights g = Inr (a, g') \<and> a \<in> set population))"

text \<open>\<open>random.randint(a, b)\<close> is \<open>randrange(a, b + 1)\<close>; an empty range raises \<open>ValueError\<close>.\<close>

definition randint :: "'g random_source \<Rightarrow> int \<Rightarrow> int \<Rightarrow> 'g \<Rightarrow> py_exception + (int \<times> 'g)" where
  "randint R a b g =
     (let width = b + 1 - a
      in if width > 0
         then (case rng_randbelow R (nat width) g of (r, g') \<Rightarrow> Inr (a + int r, g'))
         else Inl ValueError)"

text \<open>\<open>random.sample(population, k)\<close>; a sample larger than the population raises \<open>ValueError\<close>.\<close>

definition sample :: "'g random_source \<Rightarrow> 'a list \<Rightarrow> int \<Rightarrow> 'g \<Rightarrow> py_exception + ('a list \<times> 'g)" where
  "sample R population k g =
     (let n = length population
      in if 0 \<le> k \<and> k \<le> int n
         then (case rng_sample R n (nat k) g of
                 (positions, g') \<Rightarrow> Inr (map (\<lambda>i. population ! i) positions, g'))
         else Inl ValueError)"

subsection \<open>Enrollment dates, statuses and grades\<close>

definition random_date_between ::
  "'g random_source \<Rightarrow> date \<Rightarrow> date \<Rightarrow> 'g \<Rightarrow> py_exception + (date \<times> 'g)" where
  "random_date_between R start_d end_d g =
     (let delta = end_d - start_d
      in case randint R 0 delta g of
           Inl e \<Rightarrow> Inl e
         | Inr (days, g') \<Rightarrow>
             (case date_add start_d days of
                Inl e \<Rightarrow> Inl e
              | Inr d \<Rightarrow> Inr (d, g')))"

definition today :: date where
  "today = ymd2ord 2025 1 15"

text \<open>
  The arguments are dates already (the branches for strings do not apply); the third
  one is not used.
\<close>

definition choose_status_and_grade ::
  "'g random_source \<Rightarrow> date \<Rightarrow> date \<Rightarrow> date \<Rightarrow> 'g
   \<Rightarrow> py_exception + ((string \<times> string option) \<times> 'g)" where
  "choose_status_and_grade R course_start course_end enrollment_date g =
     (case (if course_end < today
            then rng_choices R [''completed'', ''active'', ''dropped''] [0.75, 0.05, 0.20] g
            else if course_start > today
            then rng_choices R [''active'', ''completed'', ''dropped''] [0.70, 0.0, 0.30] g
            else rng_choices R [''active'', ''completed'', ''dropped''] [0.60, 0.20, 0.20] g) of
        Inl e \<Rightarrow> Inl e
      | Inr (status, g1) \<Rightarrow>
          if status = ''completed''
          then (case rng_choices R [''A'', ''B'', ''C'', ''D'', ''E'', ''F'']
                       [0.25, 0.30, 0.25, 0.10, 0.05, 0.05] g1 of
                  Inl e \<Rightarrow> Inl e
                | Inr (grade, g2) \<Rightarrow> Inr ((status, Some grade), g2))
          else Inr ((status, None), g1))"

subsection \<open>The enrollments\<close>

text \<open>A row of \<open>enrollments.csv\<close>; \<open>grade or ""\<close> makes the grade of the row a string.\<close>

record enrollment_row =
  en_id :: int
  en_student_id :: int
  en_course_id :: int
  en_enrollment_date :: date
  en_status :: string
  en_final_grade :: string

definition grade_or_empty :: "string option \<Rightarrow> string" where
  "grade_or_empty grade = (case grade of None \<Rightarrow> [] | Some g \<Rightarrow> g)"

text \<open>
  The body of \<open>for course in chosen_courses\<close>: the row for one student and one course,
  with the id it is given, and the next state of the generator. Students and courses are
  the rows generated before; their dates are dates, written to the files as ISO strings
  and read back unchanged.
\<close>

definition enrollment_of ::
  "'g random_source \<Rightarrow> student \<Rightarrow> course \<Rightarrow> int \<Rightarrow> 'g
   \<Rightarrow> py_exception + (enrollment_row \<times> 'g)" where
  "enrollment_of R student course enrollment_id g =
     (case date_add (c_start_date course) (- 30) of
        Inl e \<Rightarrow> Inl e
      | Inr enroll_start \<Rightarrow>
     (case date_add (c_start_date course) 20 of
        Inl e \<Rightarrow> Inl e
      | Inr start_plus_20 \<Rightarrow>
     (case random_date_between R enroll_start (min start_plus_20 (c_end_date course)) g of
        Inl e \<Rightarrow> Inl e
      | Inr (enrollment_date, g1) \<Rightarrow>
     (case choose_status_and_grade R (c_start_date course) (c_end_date course)
             enrollment_date g1 of
        Inl e \<Rightarrow> Inl e
      | Inr ((status, grade), g2) \<Rightarrow>
          Inr (\<lparr>en_id = enrollment_id, en_student_id = s_id student,
                en_course_id = c_id course, en_enrollment_date = enrollment_date,
                en_status = status, en_final_grade = grade_or_empty grade\<rparr>, g2)))))"

text \<open>
  The loop \<open>for course in chosen_courses\<close>, on the list of rows, the next id and the
  state of the generator: each row is appended and the id incremented.
\<close>

fun enroll_in_courses ::
  "'g random_source \<Rightarrow> student \<Rightarrow> course list \<Rightarrow> enrollment_row list \<times> int \<times> 'g
   \<Rightarrow> py_exception + (enrollment_row list \<times> int \<times> 'g)" where
  "enroll_in_courses R student [] state = Inr state"
| "enroll_in_courses R student (course # chosen_courses) (enrollment_rows, enrollment_id, g) =
     (case enrollment_of R student course enrollment_id g of
        Inl e \<Rightarrow> Inl e
      | Inr (row, g') \<Rightarrow>
          enroll_in_courses R student chosen_courses
            (enrollment_rows @ [row], enrollment_id + 1, g'))"

text \<open>The loop \<open>for student in students\<close>: one to four courses for each student.\<close>

fun enroll_students ::
  "'g random_source \<Rightarrow> student list \<Rightarrow> course list \<Rightarrow> enrollment_row list \<times> int \<times> 'g
   \<Rightarrow> py_exception + (enrollment_row list \<times> int \<times> 'g)" where
  "enroll_students R [] course_rows state = Inr state"
| "enroll_students R (student # student_rows) course_rows (enrollment_rows, enrollment_id, g) =
     (case randint R 1 4 g of
        Inl e \<Rightarrow> Inl e
      | Inr (num_enrollments, g1) \<Rightarrow>
     (case sample R course_rows num_enrollments g1 of
        Inl e \<Rightarrow> Inl e
      | Inr (chosen_courses, g2) \<Rightarrow>
     (case enroll_in_courses R student chosen_courses (enrollment_rows, enrollment_id, g2) of
        Inl e \<Rightarrow> Inl e
      | Inr state \<Rightarrow> enroll_students R student_rows course_rows state)))"

definition generate_enrollments ::
  "'g random_source \<Rightarrow> student list \<Rightarrow> course list \<Rightarrow> 'g
   \<Rightarrow> py_exception + (enrollment_row list \<times> 'g)" where
  "generate_enrollments R student_rows course_rows g =
     (case enroll_students R student_rows course_rows ([], 1, g) of
        Inl e \<Rightarrow> Inl e
      | Inr (enrollment_rows, enrollment_id, g') \<Rightarrow> Inr (enrollment_rows, g'))"

subsection \<open>What the specification says of statuses and grades\<close>

text \<open>
  The weights of the three cases, and of the grades, each item with its weight, in the
  words of the specification: past course, future course, ongoing course.
\<close>

definition status_weights :: "date \<Rightarrow> date \<Rightarrow> (string \<times> rat) list" where
  "status_weights course_start course_end =
     (if course_end < today
      then [(''completed'', 0.75), (''active'', 0.05), (''dropped'', 0.20)]
      else if today < course_start
      then [(''active'', 0.70), (''completed'', 0.0), (''dropped'', 0.30)]
      else [(''active'', 0.60), (''completed'', 0.20), (''dropped'', 0.20)])"

definition grade_weights :: "(string \<times> rat) list" where
  "grade_weights =
     [(''A'', 0.25), (''B'', 0.30), (''C'', 0.25), (''D'', 0.10), (''E'', 0.05), (''F'', 0.05)]"

text \<open>
  A weighted choice over such a table, drawn in state \<open>g\<close> of the generator: what
  \<open>random.choices\<close> returns for the items and their weights.
\<close>

definition weighted_draw ::
  "'g random_source \<Rightarrow> (string \<times> rat) list \<Rightarrow> 'g \<Rightarrow> py_exception + (string \<times> 'g)" where
  "weighted_draw R table g = rng_choices R (map fst table) (map snd table) g"

text \<open>
  The courses on which the dates of \<open>generate_enrollments\<close> can be computed: the window
  is not empty and lies within the years 1 to 9999. Courses that \<open>generate_courses\<close>
  produces start between 2023 and 2025 and last 30 to 90 days.
\<close>

definition enrollment_window_ok :: "course \<Rightarrow> bool" where
  "enrollment_window_ok c =
     (31 \<le> c_start_date c \<and> c_start_date c + 20 \<le> 3652059
      \<and> c_start_date c - 30 \<le> c_end_date c)"

subsection \<open>A small generator\<close>

text \<open>
  A source of numbers to run the definitions on. The state is a counter; the integer
  below \<open>n\<close> is the state modulo \<open>n\<close>; the sample is the first \<open>k\<close> positions of a
  rotation. The choice is made in exact arithmetic: the items share the interval from 0
  to the total of the weights in consecutive pieces, each as long as its weight; the
  state's last two decimal digits, as hundredths of the total, fall in the piece of the
  item chosen.
\<close>

fun weighted_choice :: "('a \<times> rat) list \<Rightarrow> rat \<Rightarrow> 'a option" where
  "weighted_choice [] x = None"
| "weighted_choice ((a, w) # rest) x = (if x < w then Some a else weighted_choice rest (x - w))"

definition counter_choices :: "string list \<Rightarrow> rat list \<Rightarrow> nat \<Rightarrow> py_exception + (string \<times> nat)" where
  "counter_choices population weights g =
     (if length weights \<noteq> length population then Inl ValueError
      else if population = [] then Inl IndexError
      else if sum_list weights \<le> 0 then Inl ValueError
      else (case weighted_choice (zip population weights)
                   (of_nat (g mod 100) / 100 * sum_list weights) of
              None \<Rightarrow> Inr (last population, g + 1)
            | Some a \<Rightarrow> Inr (a, g + 1)))"

definition counter_source :: "nat random_source" where
  "counter_source =
     \<lparr>rng_randbelow = (\<lambda>n g. (g mod n, g + 1)),
      rng_sample = (\<lambda>n k g. (take k (rotate g [0..<n]), g + 1)),
      rng_choices = counter_choices\<rparr>"

section \<open>Record Writer: validation\<close>

text \<open>
  Claim C5. A submission in which the first name, the last name or the email is empty is
  answered with the validation error, and the database is the one before the submission:
  no statement is executed, so no student row and no enrollment row is created.
\<close>

theorem add_student_form_rejects_empty_field:
  "first_name = [] \<or> last_name = [] \<or> email = [] \<Longrightarrow>
   add_student_form S current_date course_options True first_name last_name email
     registration_date selected_courses_labels db = (db, Required_error)"
  by (simp add: add_student_form_def)

theorem add_student_form_rejects_empty_field_witness:
  "(''Ada'' = [] \<or> ''Lovelace'' = [] \<or> ([] :: string) = []) \<and>
   add_student_form schema_storage 739000 [''Introduction to SQL #1 (#1)'' \<mapsto> 1] True
     ''Ada'' ''Lovelace'' [] 739000 [''Introduction to SQL #1 (#1)''] example_db
   = (example_db, Required_error)"
  using add_student_form_rejects_empty_field [of "''Ada''" "''Lovelace''" "[]"
      schema_storage 739000 "[''Introduction to SQL #1 (#1)'' \<mapsto> 1]" 739000
      "[''Introduction to SQL #1 (#1)'']" example_db]
  by simp

section \<open>Record Writer: one transaction per insert\<close>

text \<open>
  What one \<open>run_exec\<close> call does with each of the two inserts: a rejected row leaves the
  tables as they were and the sequence one further; an accepted row is committed.
\<close>

lemma run_exec_insert_enrollment:
  "run_exec (insert_enrollment S current_date sid cid) db =
     (case enrollment_check S db (sid, cid) of
        Some msg \<Rightarrow> (db\<lparr>enrollment_seq := enrollment_seq db + 1\<rparr>, Inl msg)
      | None \<Rightarrow> (after_enrollments current_date sid [cid] db, Inr ()))"
  by (simp add: run_exec_def insert_enrollment_def rollback_def Let_def split: option.splits)

lemma run_exec_insert_student:
  "run_exec (insert_student S fname lname em rd) db =
     (case student_check S db (fname, lname, em, rd) of
        Some msg \<Rightarrow> (db\<lparr>student_seq := student_seq db + 1\<rparr>, Inl msg)
      | None \<Rightarrow> (after_student fname lname em rd db, Inr (student_seq db)))"
  by (simp add: run_exec_def insert_student_def rollback_def after_student_def Let_def
      split: option.splits)

text \<open>The tables and sequences of the database that \<open>after_enrollments\<close> describes.\<close>

lemma after_enrollments_append:
  "after_enrollments current_date sid (cids @ [cid]) db =
   after_enrollments current_date sid [cid] (after_enrollments current_date sid cids db)"
  by (induction cids arbitrary: db) simp_all

lemma after_enrollments_tables:
  "teachers (after_enrollments current_date sid cids db) = teachers db \<and>
   students (after_enrollments current_date sid cids db) = students db \<and>
   courses (after_enrollments current_date sid cids db) = courses db \<and>
   student_seq (after_enrollments current_date sid cids db) = student_seq db \<and>
   enrollment_seq (after_enrollments current_date sid cids db)
     = enrollment_seq db + int (length cids) \<and>
   enrollments (after_enrollments current_date sid cids db)
     = enrollments db @
       map (\<lambda>i. new_enrollment (enrollment_seq db + int i) sid (cids ! i) current_date)
         [0..<length cids]"
proof (induction cids rule: rev_induct)
  case Nil
  show ?case by simp
next
  case (snoc cid cids)
  have "map (\<lambda>i. new_enrollment (enrollment_seq db + int i) sid ((cids @ [cid]) ! i) current_date)
          [0..<length cids]
        = map (\<lambda>i. new_enrollment (enrollment_seq db + int i) sid (cids ! i) current_date)
          [0..<length cids]"
    by (simp add: nth_append)
  with snoc show ?case
    by (simp add: after_enrollments_append)
qed

text \<open>
  The loop over the selected courses stops at the first insert that fails. With \<open>k\<close> the
  number of inserts before it: each of the first \<open>k\<close> labels is in the dictionary and its
  row was accepted by the storage in the database holding the rows before it, these \<open>k\<close>
  rows are committed, and either \<open>k\<close> is the number of labels, or label \<open>k\<close> is the one
  that failed: it is not in the dictionary, or the storage rejected its row, which used up
  one value of the sequence.
\<close>

lemma enroll_selected_first_failure:
  "enroll_selected S current_date opts sid labels db = (db', r) \<Longrightarrow>
   \<exists>k\<le>length labels. \<exists>cids.
     map opts (take k labels) = map Some cids \<and>
     (\<forall>i<k. enrollment_check S (after_enrollments current_date sid (take i cids) db)
               (sid, cids ! i) = None) \<and>
     (if k = length labels
      then db' = after_enrollments current_date sid cids db \<and> r = Inr ()
      else case opts (labels ! k) of
             None \<Rightarrow> db' = after_enrollments current_date sid cids db \<and>
               r = Inl (key_error (labels ! k))
           | Some cid \<Rightarrow>
               \<exists>msg. enrollment_check S (after_enrollments current_date sid cids db) (sid, cid)
                       = Some msg \<and>
                 db' = (after_enrollments current_date sid cids db)
                         \<lparr>enrollment_seq := enrollment_seq db + int k + 1\<rparr> \<and>
                 r = Inl msg)"
proof (induction labels arbitrary: db)
  case Nil
  then show ?case by simp
next
  case (Cons label labels)
  show ?case
  proof (cases "opts label")
    case None
    with Cons.prems show ?thesis
      by (intro exI[of _ 0] conjI exI[of _ "[]"]) auto
  next
    case (Some cid)
    note lookup = this
    show ?thesis
    proof (cases "enrollment_check S db (sid, cid)")
      case (Some msg)
      with Cons.prems lookup show ?thesis
        by (intro exI[of _ 0] conjI exI[of _ "[]"]) (auto simp: run_exec_insert_enrollment)
    next
      case None
      define db1 where "db1 = after_enrollments current_date sid [cid] db"
      from Cons.prems lookup None
      have "enroll_selected S current_date opts sid labels db1 = (db', r)"
        by (simp add: run_exec_insert_enrollment db1_def)
      from Cons.IH[OF this] obtain k cids where k: "k \<le> length labels"
        and cids: "map opts (take k labels) = map Some cids"
        and accepted: "\<forall>i<k. enrollment_check S (after_enrollments current_date sid (take i cids) db1)
               (sid, cids ! i) = None"
        and last: "if k = length labels
          then db' = after_enrollments current_date sid cids db1 \<and> r = Inr ()
          else case opts (labels ! k) of
             None \<Rightarrow> db' = after_enrollments current_date sid cids db1 \<and>
               r = Inl (key_error (labels ! k))
           | Some cid \<Rightarrow>
               \<exists>msg. enrollment_check S (after_enrollments current_date sid cids db1) (sid, cid)
                       = Some msg \<and>
                 db' = (after_enrollments current_date sid cids db1)
                         \<lparr>enrollment_seq := enrollment_seq db1 + int k + 1\<rparr> \<and>
                 r = Inl msg"
        by blast
      have shift: "after_enrollments current_date sid (cid # xs) db
          = after_enrollments current_date sid xs db1" for xs
        by (simp add: db1_def)
      have seq: "enrollment_seq db1 + int k + 1 = enrollment_seq db + int (Suc k) + 1"
        by (simp add: db1_def)
      have a: "Suc k \<le> length (label # labels)" using k by simp
      have b: "map opts (take (Suc k) (label # labels)) = map Some (cid # cids)"
        using cids lookup by simp
      have c: "\<forall>i<Suc k. enrollment_check S
                 (after_enrollments current_date sid (take i (cid # cids)) db)
                 (sid, (cid # cids) ! i) = None"
      proof (intro allI impI)
        fix i assume "i < Suc k"
        show "enrollment_check S (after_enrollments current_date sid (take i (cid # cids)) db)
                 (sid, (cid # cids) ! i) = None"
        proof (cases i)
          case 0
          then show ?thesis using None by simp
        next
          case (Suc j)
          with \<open>i < Suc k\<close> have "j < k" by simp
          with accepted have "enrollment_check S
              (after_enrollments current_date sid (take j cids) db1) (sid, cids ! j) = None"
            by blast
          then show ?thesis unfolding Suc by (simp add: db1_def)
        qed
      qed
      have d: "if Suc k = length (label # labels)
          then db' = after_enrollments current_date sid (cid # cids) db \<and> r = Inr ()
          else case opts ((label # labels) ! Suc k) of
             None \<Rightarrow> db' = after_enrollments current_date sid (cid # cids) db \<and>
               r = Inl (key_error ((label # labels) ! Suc k))
           | Some c \<Rightarrow>
               \<exists>msg. enrollment_check S (after_enrollments current_date sid (cid # cids) db) (sid, c)
                       = Some msg \<and>
                 db' = (after_enrollments current_date sid (cid # cids) db)
                         \<lparr>enrollment_seq := enrollment_seq db + int (Suc k) + 1\<rparr> \<and>
                 r = Inl msg"
        using last unfolding shift seq by (auto split: option.splits)
      from a b c d show ?thesis by blast
    qed
  qed
qed

text \<open>
  The submission of Ada Lovelace for two courses, the second of which is no longer in the
  \<open>course\<close> table when its enrollment is inserted: the student insert and the first
  enrollment insert are committed, the second enrollment insert raises.
\<close>

lemma example_submission_run:
  "add_student_form schema_storage 739000
     [''Introduction to SQL #1 (#1)'' \<mapsto> 1, ''Cloud Fundamentals #9 (#9)'' \<mapsto> 9] True
     ''Ada'' ''Lovelace'' ''ada@example.com'' 738900
     [''Introduction to SQL #1 (#1)'', ''Cloud Fundamentals #9 (#9)''] example_db
   = (example_db\<lparr>students := students example_db @
         [\<lparr>s_id = 2, s_first_name = ''Ada'', s_last_name = ''Lovelace'',
           s_email = ''ada@example.com'', s_registration_date = 738900\<rparr>],
       enrollments := enrollments example_db @ [new_enrollment 2 2 1 739000],
       student_seq := 3, enrollment_seq := 4\<rparr>,
      Saving_error ''violates foreign key constraint enrollment_course_id_fkey'')"
  by (simp add: add_student_form_def run_exec_insert_student run_exec_insert_enrollment
      after_student_def schema_storage_def example_db_def report_exception_def contains_def
      sublist_Cons_right)

text \<open>
  Claim C1, as stated, fails. The claim: when an enrollment insert of a submission fails,
  no student row and no enrollment row of that submission is persisted. On the submission
  above the second enrollment insert fails and the page reports the error, yet the
  database holds the new student row and the first enrollment row.
\<close>

theorem add_student_form_partial_write:
  "snd (add_student_form schema_storage 739000
     [''Introduction to SQL #1 (#1)'' \<mapsto> 1, ''Cloud Fundamentals #9 (#9)'' \<mapsto> 9] True
     ''Ada'' ''Lovelace'' ''ada@example.com'' 738900
     [''Introduction to SQL #1 (#1)'', ''Cloud Fundamentals #9 (#9)''] example_db)
   = Saving_error ''violates foreign key constraint enrollment_course_id_fkey'' \<and>
   students (fst (add_student_form schema_storage 739000
     [''Introduction to SQL #1 (#1)'' \<mapsto> 1, ''Cloud Fundamentals #9 (#9)'' \<mapsto> 9] True
     ''Ada'' ''Lovelace'' ''ada@example.com'' 738900
     [''Introduction to SQL #1 (#1)'', ''Cloud Fundamentals #9 (#9)''] example_db))
   = students example_db @
       [\<lparr>s_id = 2, s_first_name = ''Ada'', s_last_name = ''Lovelace'',
         s_email = ''ada@example.com'', s_registration_date = 738900\<rparr>] \<and>
   enrollments (fst (add_student_form schema_storage 739000
     [''Introduction to SQL #1 (#1)'' \<mapsto> 1, ''Cloud Fundamentals #9 (#9)'' \<mapsto> 9] True
     ''Ada'' ''Lovelace'' ''ada@example.com'' 738900
     [''Introduction to SQL #1 (#1)'', ''Cloud Fundamentals #9 (#9)''] example_db))
   = enrollments example_db @ [new_enrollment 2 2 1 739000]"
  unfolding example_submission_run by simp

text \<open>
  Claim C1, amended. Every insert of a submission is committed or rolled back by a
  \<open>run_exec\<close> call of its own, and the first insert that fails ends the submission.

  When the storage rejects the student row, the tables are the ones before the
  submission, one id of the student sequence is used up, and the error is reported.

  When it accepts the row, the student row is committed whatever follows. Let \<open>k\<close> be the
  number of enrollment inserts before the first one that fails. Each of the first \<open>k\<close>
  selected courses is in the dictionary and its row was accepted in the database that
  holds the student row and the enrollment rows before it, and these \<open>k\<close> rows are
  committed (\<open>after_enrollments\<close>; \<open>after_enrollments_tables\<close> spells out the tables).
  Either \<open>k\<close> is the number of selected courses, then the page reports success; or
  selected course \<open>k\<close> is the one that failed: its label is not in the dictionary and the
  \<open>KeyError\<close> is reported, or the storage rejected its row in the database holding the \<open>k\<close>
  rows before it, one id of the enrollment sequence is used up, and that error is
  reported. No later course is attempted and no committed row is taken back.
\<close>

theorem add_student_form_commits_each_insert:
  assumes "first_name \<noteq> []" "last_name \<noteq> []" "email \<noteq> []"
    and run: "add_student_form S current_date opts True first_name last_name email reg_date
                labels db = (db', m)"
  shows "case student_check S db (first_name, last_name, email, reg_date) of
           Some msg \<Rightarrow>
             db' = db\<lparr>student_seq := student_seq db + 1\<rparr> \<and> m = report_exception msg
         | None \<Rightarrow>
             (\<exists>k\<le>length labels. \<exists>cids.
                map opts (take k labels) = map Some cids \<and>
                (\<forall>i<k. enrollment_check S
                          (after_enrollments current_date (student_seq db) (take i cids)
                             (after_student first_name last_name email reg_date db))
                          (student_seq db, cids ! i) = None) \<and>
                (if k = length labels
                 then db' = after_enrollments current_date (student_seq db) cids
                              (after_student first_name last_name email reg_date db) \<and>
                      m = Success (student_seq db) (length labels)
                 else case opts (labels ! k) of
                        None \<Rightarrow>
                          db' = after_enrollments current_date (student_seq db) cids
                                  (after_student first_name last_name email reg_date db) \<and>
                          m = report_exception (key_error (labels ! k))
                      | Some cid \<Rightarrow>
                          \<exists>msg. enrollment_check S
                                  (after_enrollments current_date (student_seq db) cids
                                     (after_student first_name last_name email reg_date db))
                                  (student_seq db, cid) = Some msg \<and>
                            db' = (after_enrollments current_date (student_seq db) cids
                                     (after_student first_name last_name email reg_date db))
                                  \<lparr>enrollment_seq := enrollment_seq db + int k + 1\<rparr> \<and>
                            m = report_exception msg))"
proof (cases "student_check S db (first_name, last_name, email, reg_date)")
  case (Some msg)
  with assms show ?thesis
    by (simp add: add_student_form_def run_exec_insert_student)
next
  case None
  define db1 where "db1 = after_student first_name last_name email reg_date db"
  define sid where "sid = student_seq db"
  obtain db2 r where loop: "enroll_selected S current_date opts sid labels db1 = (db2, r)"
    by (cases "enroll_selected S current_date opts sid labels db1") auto
  from assms None loop have res: "db' = db2"
    "m = (case r of Inl msg \<Rightarrow> report_exception msg | Inr _ \<Rightarrow> Success sid (length labels))"
    by (auto simp: add_student_form_def run_exec_insert_student db1_def sid_def split: sum.splits)
  have seq: "enrollment_seq db1 = enrollment_seq db"
    by (simp add: db1_def after_student_def)
  from enroll_selected_first_failure[OF loop] obtain k cids where k: "k \<le> length labels"
    and cids: "map opts (take k labels) = map Some cids"
    and accepted: "\<forall>i<k. enrollment_check S (after_enrollments current_date sid (take i cids) db1)
               (sid, cids ! i) = None"
    and last: "if k = length labels
      then db2 = after_enrollments current_date sid cids db1 \<and> r = Inr ()
      else case opts (labels ! k) of
             None \<Rightarrow> db2 = after_enrollments current_date sid cids db1 \<and>
               r = Inl (key_error (labels ! k))
           | Some cid \<Rightarrow>
               \<exists>msg. enrollment_check S (after_enrollments current_date sid cids db1) (sid, cid)
                       = Some msg \<and>
                 db2 = (after_enrollments current_date sid cids db1)
                         \<lparr>enrollment_seq := enrollment_seq db1 + int k + 1\<rparr> \<and>
                 r = Inl msg"
    by blast
  have final: "if k = length labels
      then db' = after_enrollments current_date sid cids db1 \<and> m = Success sid (length labels)
      else case opts (labels ! k) of
             None \<Rightarrow> db' = after_enrollments current_date sid cids db1 \<and>
               m = report_exception (key_error (labels ! k))
           | Some cid \<Rightarrow>
               \<exists>msg. enrollment_check S (after_enrollments current_date sid cids db1) (sid, cid)
                       = Some msg \<and>
                 db' = (after_enrollments current_date sid cids db1)
                         \<lparr>enrollment_seq := enrollment_seq db + int k + 1\<rparr> \<and>
                 m = report_exception msg"
    using last res seq by (auto split: option.splits)
  have "\<exists>k\<le>length labels. \<exists>cids.
          map opts (take k labels) = map Some cids \<and>
          (\<forall>i<k. enrollment_check S (after_enrollments current_date sid (take i cids) db1)
                    (sid, cids ! i) = None) \<and>
          (if k = length labels
           then db' = after_enrollments current_date sid cids db1 \<and> m = Success sid (length labels)
           else case opts (labels ! k) of
                  None \<Rightarrow> db' = after_enrollments current_date sid cids db1 \<and>
                    m = report_exception (key_error (labels ! k))
                | Some cid \<Rightarrow>
                    \<exists>msg. enrollment_check S (after_enrollments current_date sid cids db1) (sid, cid)
                            = Some msg \<and>
                      db' = (after_enrollments current_date sid cids db1)
                              \<lparr>enrollment_seq := enrollment_seq db + int k + 1\<rparr> \<and>
                      m = report_exception msg)"
    using k cids accepted final by blast
  then show ?thesis using None unfolding db1_def sid_def by simp
qed

theorem add_student_form_commits_each_insert_witness:
  "case student_check schema_storage example_db
          (''Ada'', ''Lovelace'', ''ada@example.com'', 738900) of
     Some msg \<Rightarrow>
       example_db\<lparr>students := students example_db @
           [\<lparr>s_id = 2, s_first_name = ''Ada'', s_last_name = ''Lovelace'',
             s_email = ''ada@example.com'', s_registration_date = 738900\<rparr>],
         enrollments := enrollments example_db @ [new_enrollment 2 2 1 739000],
         student_seq := 3, enrollment_seq := 4\<rparr>
       = example_db\<lparr>student_seq := student_seq example_db + 1\<rparr> \<and>
       Saving_error ''violates foreign key constraint enrollment_course_id_fkey''
         = report_exception msg
   | None \<Rightarrow>
       (\<exists>k\<le>length [''Introduction to SQL #1 (#1)'', ''Cloud Fundamentals #9 (#9)'']. \<exists>cids.
          map [''Introduction to SQL #1 (#1)'' \<mapsto> 1, ''Cloud Fundamentals #9 (#9)'' \<mapsto> 9]
            (take k [''Introduction to SQL #1 (#1)'', ''Cloud Fundamentals #9 (#9)''])
          = map Some cids \<and>
          (\<forall>i<k. enrollment_check schema_storage
                    (after_enrollments 739000 (student_seq example_db) (take i cids)
                       (after_student ''Ada'' ''Lovelace'' ''ada@example.com'' 738900 example_db))
                    (student_seq example_db, cids ! i) = None) \<and>
          (if k = length [''Introduction to SQL #1 (#1)'', ''Cloud Fundamentals #9 (#9)'']
           then example_db\<lparr>students := students example_db @
                    [\<lparr>s_id = 2, s_first_name = ''Ada'', s_last_name = ''Lovelace'',
                      s_email = ''ada@example.com'', s_registration_date = 738900\<rparr>],
                  enrollments := enrollments example_db @ [new_enrollment 2 2 1 739000],
                  student_seq := 3, enrollment_seq := 4\<rparr>
                = after_enrollments 739000 (student_seq example_db) cids
                    (after_student ''Ada'' ''Lovelace'' ''ada@example.com'' 738900 example_db) \<and>
                Saving_error ''violates foreign key constraint enrollment_course_id_fkey''
                = Success (student_seq example_db)
                    (length [''Introduction to SQL #1 (#1)'', ''Cloud Fundamentals #9 (#9)''])
           else case [''Introduction to SQL #1 (#1)'' \<mapsto> 1, ''Cloud Fundamentals #9 (#9)'' \<mapsto> 9]
                       ([''Introduction to SQL #1 (#1)'', ''Cloud Fundamentals #9 (#9)''] ! k) of
                  None \<Rightarrow>
                    example_db\<lparr>students := students example_db @
                        [\<lparr>s_id = 2, s_first_name = ''Ada'', s_last_name = ''Lovelace'',
                          s_email = ''ada@example.com'', s_registration_date = 738900\<rparr>],
                      enrollments := enrollments example_db @ [new_enrollment 2 2 1 739000],
                      student_seq := 3, enrollment_seq := 4\<rparr>
                    = after_enrollments 739000 (student_seq example_db) cids
                        (after_student ''Ada'' ''Lovelace'' ''ada@example.com'' 738900 example_db) \<and>
                    Saving_error ''violates foreign key constraint enrollment_course_id_fkey''
                    = report_exception
                        (key_error ([''Introduction to SQL #1 (#1)'',
                                     ''Cloud Fundamentals #9 (#9)''] ! k))
                | Some cid \<Rightarrow>
                    \<exists>msg. enrollment_check schema_storage
                            (after_enrollments 739000 (student_seq example_db) cids
                               (after_student ''Ada'' ''Lovelace'' ''ada@example.com'' 738900
                                  example_db))
                            (student_seq example_db, cid) = Some msg \<and>
                      example_db\<lparr>students := students example_db @
                          [\<lparr>s_id = 2, s_first_name = ''Ada'', s_last_name = ''Lovelace'',
                            s_email = ''ada@example.com'', s_registration_date = 738900\<rparr>],
                        enrollments := enrollments example_db @ [new_enrollment 2 2 1 739000],
                        student_seq := 3, enrollment_seq := 4\<rparr>
                      = (after_enrollments 739000 (student_seq example_db) cids
                           (after_student ''Ada'' ''Lovelace'' ''ada@example.com'' 738900
                              example_db))
                        \<lparr>enrollment_seq := enrollment_seq example_db + int k + 1\<rparr> \<and>
                      Saving_error ''violates foreign key constraint enrollment_course_id_fkey''
                      = report_exception msg))"
  by (rule add_student_form_commits_each_insert [OF _ _ _ example_submission_run]) simp_all

section \<open>Student search: \<open>ILIKE\<close> and substrings\<close>

subsection \<open>Patterns without an escape character\<close>

lemma like_tokens_Cons_plain:
  "c \<noteq> CHR 0x5C \<Longrightarrow> like_tokens (c # cs) = map_option (Cons (like_token c)) (like_tokens cs)"
  by (cases cs) simp_all

lemma like_tokens_plain_append:
  "CHR 0x5C \<notin> set xs \<Longrightarrow>
   like_tokens (xs @ ys) = map_option ((@) (map like_token xs)) (like_tokens ys)"
proof (induction xs)
  case Nil
  show ?case by (simp add: option.map_ident)
next
  case (Cons c xs)
  then have "c \<noteq> CHR 0x5C" "CHR 0x5C \<notin> set xs" by auto
  with Cons.IH show ?case
    by (simp add: like_tokens_Cons_plain option.map_comp comp_def)
qed

lemma like_tokens_pattern:
  assumes "CHR 0x5C \<notin> set t"
  shows "like_tokens (''%'' @ t @ ''%'') = Some (Any_string # map like_token t @ [Any_string])"
proof -
  have "like_tokens (''%'' @ t @ ''%'') = map_option (Cons Any_string) (like_tokens (t @ ''%''))"
    by (simp add: like_tokens_Cons_plain like_token_def)
  also have "like_tokens (t @ ''%'') = Some (map like_token t @ [Any_string])"
    using assms by (simp add: like_tokens_plain_append like_token_def)
  finally show ?thesis by simp
qed

lemma like_match_Any_string_all: "like_match [Any_string] s"
  by (induction s) simp_all

lemma like_match_Any_string:
  "like_match (Any_string # ts) s \<longleftrightarrow> (\<exists>p r. s = p @ r \<and> like_match ts r)"
proof (induction s)
  case Nil
  show ?case by simp
next
  case (Cons x xs)
  show ?case
  proof
    assume "like_match (Any_string # ts) (x # xs)"
    then consider "like_match ts (x # xs)" | "like_match (Any_string # ts) xs" by auto
    then show "\<exists>p r. x # xs = p @ r \<and> like_match ts r"
    proof cases
      case 1
      then have "x # xs = [] @ (x # xs) \<and> like_match ts (x # xs)" by simp
      then show ?thesis by blast
    next
      case 2
      with Cons.IH obtain p r where "xs = p @ r" "like_match ts r" by blast
      then have "x # xs = (x # p) @ r \<and> like_match ts r" by simp
      then show ?thesis by blast
    qed
  next
    assume "\<exists>p r. x # xs = p @ r \<and> like_match ts r"
    then obtain p r where pr: "x # xs = p @ r" "like_match ts r" by blast
    show "like_match (Any_string # ts) (x # xs)"
    proof (cases p)
      case Nil
      with pr have "like_match ts (x # xs)" by simp
      then show ?thesis by simp
    next
      case (Cons y p')
      with pr have "xs = p' @ r" by simp
      with pr(2) Cons.IH show ?thesis by auto
    qed
  qed
qed

lemma like_match_literals:
  "like_match (map Literal t @ ts) s \<longleftrightarrow> (\<exists>r. s = t @ r \<and> like_match ts r)"
proof (induction t arbitrary: s)
  case Nil
  show ?case by simp
next
  case (Cons c t)
  show ?case by (cases s) (auto simp: Cons.IH)
qed

lemma like_match_substring:
  "like_match (Any_string # map Literal t @ [Any_string]) s \<longleftrightarrow> sublist t s"
  by (auto simp: like_match_Any_string like_match_literals like_match_Any_string_all sublist_def)

lemma like_token_plain: "\<not> like_meta c \<Longrightarrow> like_token c = Literal c"
  by (simp add: like_token_def like_meta_def)

lemma like_tokens_total: "\<exists>pat. like_tokens (xs @ ''%'') = Some pat"
  by (induction xs rule: like_tokens.induct) (auto simp: like_token_def)

lemma like_match_own_text:
  "like_match ts r \<Longrightarrow> like_match (map like_token t @ ts) (t @ r)"
proof (induction t)
  case Nil
  then show ?case by simp
next
  case (Cons c t)
  then have IH: "like_match (map like_token t @ ts) (t @ r)" by simp
  show ?case
  proof (cases "like_token c")
    case Any_string
    have "c # t @ r = [c] @ (t @ r) \<and> like_match (map like_token t @ ts) (t @ r)"
      using IH by simp
    then have "\<exists>p q. c # t @ r = p @ q \<and> like_match (map like_token t @ ts) q"
      by (intro exI)
    then have "like_match (Any_string # map like_token t @ ts) (c # t @ r)"
      by (simp only: like_match_Any_string)
    then show ?thesis by (simp add: Any_string)
  next
    case Any_char
    with IH show ?thesis by simp
  next
    case (Literal d)
    then have "d = c" by (auto simp: like_token_def split: if_splits)
    with IH Literal show ?thesis by simp
  qed
qed


subsection \<open>Matching under a collation\<close>

lemma fold_case_plain:
  assumes "collation_ok C" and "\<forall>c\<in>set t. \<not> like_meta c"
  shows "\<forall>c\<in>set (fold_case C t). \<not> like_meta c"
  using assms unfolding collation_ok_def by blast

lemma fold_case_no_backslash:
  assumes "collation_ok C" and "CHR 0x5C \<notin> set t"
  shows "CHR 0x5C \<notin> set (fold_case C t)"
proof
  assume "CHR 0x5C \<in> set (fold_case C t)"
  moreover have "like_meta (CHR 0x5C)" by (simp add: like_meta_def)
  ultimately have "CHR 0x5C \<in> set t"
    using assms(1) unfolding collation_ok_def by blast
  with assms(2) show False by simp
qed

lemma fold_case_pattern:
  "collation_ok C \<Longrightarrow> fold_case C (''%'' @ t @ ''%'') = ''%'' @ fold_case C t @ ''%''"
  unfolding collation_ok_def by blast

lemma ilike_substring:
  assumes "collation_ok C" and "\<forall>c\<in>set t. \<not> like_meta c"
  shows "\<exists>pat. like_tokens (fold_case C (''%'' @ t @ ''%'')) = Some pat \<and>
           (\<forall>s. ilike C pat s \<longleftrightarrow> icontains C s t)"
proof -
  have plain: "\<forall>c\<in>set (fold_case C t). \<not> like_meta c"
    by (rule fold_case_plain[OF assms])
  then have bs: "CHR 0x5C \<notin> set (fold_case C t)" by (auto simp: like_meta_def)
  have toks: "map like_token (fold_case C t) = map Literal (fold_case C t)"
    using plain by (simp add: like_token_plain)
  have "like_tokens (fold_case C (''%'' @ t @ ''%''))
        = Some (Any_string # map Literal (fold_case C t) @ [Any_string])"
    unfolding fold_case_pattern[OF assms(1)] like_tokens_pattern[OF bs] toks ..
  then show ?thesis
    by (simp add: ilike_def icontains_def like_match_substring)
qed

lemma ilike_contained:
  assumes "collation_ok C" and "CHR 0x5C \<notin> set t" and "icontains C s t"
  shows "\<exists>pat. like_tokens (fold_case C (''%'' @ t @ ''%'')) = Some pat \<and> ilike C pat s"
proof -
  have bs: "CHR 0x5C \<notin> set (fold_case C t)"
    by (rule fold_case_no_backslash[OF assms(1,2)])
  from assms(3) obtain p r where s: "fold_case C s = p @ fold_case C t @ r"
    by (auto simp: icontains_def sublist_def)
  have "like_match (map like_token (fold_case C t) @ [Any_string]) (fold_case C t @ r)"
    by (rule like_match_own_text) (rule like_match_Any_string_all)
  then have "like_match (Any_string # map like_token (fold_case C t) @ [Any_string])
               (fold_case C s)"
    unfolding like_match_Any_string s by blast
  then show ?thesis
    unfolding fold_case_pattern[OF assms(1)] like_tokens_pattern[OF bs] by (simp add: ilike_def)
qed

text \<open>The pattern \<open>%term%\<close> always tokenises: the query never raises.\<close>

lemma query_students_returns:
  assumes "collation_ok C"
  shows "\<exists>rows. query_students C search_term db = Inr rows"
proof -
  have "fold_case C (''%'' @ search_term @ ''%'') = (''%'' @ fold_case C search_term) @ ''%''"
    using fold_case_pattern[OF assms] by simp
  with like_tokens_total[of "''%'' @ fold_case C search_term"] show ?thesis
    by (auto simp: query_students_def)
qed

subsection \<open>The collation \<open>C\<close> is a collation\<close>

lemma of_char_lower_char:
  "(of_char (lower_char c) :: nat) =
     (if 65 \<le> (of_char c :: nat) \<and> (of_char c :: nat) \<le> 90 then of_char c + 32 else of_char c)"
  by (simp add: lower_char_def)

lemma like_meta_lower_char: "like_meta (lower_char c) \<longleftrightarrow> like_meta c"
proof -
  have eq: "\<And>a b :: char. a = b \<longleftrightarrow> (of_char a :: nat) = of_char b" by simp
  show ?thesis
    unfolding like_meta_def eq[of "lower_char c"] eq[of c] of_char_lower_char
    by auto
qed

lemma lower_char_meta: "like_meta d \<Longrightarrow> lower_char c = d \<Longrightarrow> c = d"
proof -
  assume d: "like_meta d" and c: "lower_char c = d"
  have eq: "\<And>a b :: char. a = b \<longleftrightarrow> (of_char a :: nat) = of_char b" by simp
  from d c show "c = d"
    unfolding like_meta_def eq[of "lower_char c"] eq[of c] eq[of d] of_char_lower_char
    by (auto split: if_splits)
qed

lemma name_le_c_collation: "name_le c_collation a b \<longleftrightarrow> name_key a \<le> name_key b"
  by (auto simp: name_le_def c_collation_def name_key_def less_eq_prod_def)

lemma collation_ok_c_collation: "collation_ok c_collation"
proof -
  have a: "fold_case c_collation (''%'' @ t @ ''%'') = ''%'' @ fold_case c_collation t @ ''%''"
    for t
    by (simp add: c_collation_def lower_def lower_char_def)
  have b: "c \<in> set t" if "like_meta c" "c \<in> set (fold_case c_collation t)" for t c
  proof -
    from that(2) obtain x where x: "x \<in> set t" "lower_char x = c"
      by (auto simp: c_collation_def lower_def)
    with lower_char_meta[OF that(1) x(2)] show ?thesis by simp
  qed
  have c: "mset (order_by_name c_collation rows) = mset rows" for rows
    by (simp add: c_collation_def)
  have "sorted (map name_key (sort_key name_key rows))" for rows
    by simp
  then have d: "sorted_wrt (name_le c_collation) (order_by_name c_collation rows)" for rows
    unfolding sorted_wrt_map name_le_c_collation[symmetric]
    by (simp add: c_collation_def)
  from a b c d show ?thesis
    unfolding collation_ok_def by blast
qed

subsection \<open>Two searches\<close>

lemma example_search_run:
  "student_search c_collation ''example'' example_db = Some (Inr (students example_db))"
  by (simp add: student_search_def query_students_def example_db_def c_collation_def
      lower_def lower_char_def like_token_def student_matches_def ilike_def)

lemma backslash_search_run:
  "student_search c_collation [CHR 0x5C] backslash_db = Some (Inr [])"
  by (simp add: student_search_def query_students_def example_db_def c_collation_def
      lower_def lower_char_def like_token_def student_matches_def ilike_def backslash_db_def)

subsection \<open>Claims C4 and C10\<close>

text \<open>
  Claim C4, as stated, fails. The claim: the search returns exactly the students whose
  first name, last name or full name contains the term. Amanda Gill is returned for the
  term \<open>example\<close>, which is in her email and in none of her names.
\<close>

theorem student_search_returns_email_match:
  "student_search c_collation ''example'' example_db
   = Some (Inr [\<lparr>s_id = 1, s_first_name = ''Amanda'', s_last_name = ''Gill'',
                  s_email = ''amanda.gill1@student.example.com'',
                  s_registration_date = 738000\<rparr>]) \<and>
   \<not> name_contains c_collation ''example''
       \<lparr>s_id = 1, s_first_name = ''Amanda'', s_last_name = ''Gill'',
        s_email = ''amanda.gill1@student.example.com'', s_registration_date = 738000\<rparr>"
  unfolding example_search_run
  by (simp add: example_db_def name_contains_def icontains_def c_collation_def lower_def
      lower_char_def sublist_Cons_right)

text \<open>
  Claim C4, amended. Under every collation, for a non-empty term without the characters
  \<open>%\<close>, \<open>_\<close> and backslash: the students that match are those whose first name, last name,
  email or full name contains the term once the database has folded the case of both;
  the search returns the first 50 rows of these students put in an order of last name,
  then first name. In that order each matching student occurs as often as in the table,
  and every row stands before the rows that sort after it; which of two students with
  equal names comes first is not determined.
\<close>

theorem student_search_plain_term:
  assumes "collation_ok C" and "search_term \<noteq> []" and "\<forall>c\<in>set search_term. \<not> like_meta c"
  shows "\<exists>rows ordered. student_search C search_term db = Some (Inr rows) \<and>
           mset ordered = mset (filter (name_or_email_contains C search_term) (students db)) \<and>
           sorted_wrt (name_le C) ordered \<and>
           rows = take 50 ordered \<and>
           length rows \<le> 50 \<and> sorted_wrt (name_le C) rows"
proof -
  from ilike_substring[OF assms(1,3)] obtain pat where
    pat: "like_tokens (fold_case C (''%'' @ search_term @ ''%'')) = Some pat"
      "\<And>s. ilike C pat s \<longleftrightarrow> icontains C s search_term" by blast
  define ordered where
    "ordered = order_by_name C (filter (name_or_email_contains C search_term) (students db))"
  have "student_matches C pat = name_or_email_contains C search_term"
    by (rule ext) (simp add: student_matches_def name_or_email_contains_def pat(2))
  then have run: "student_search C search_term db = Some (Inr (take 50 ordered))"
    using assms(2) pat(1) by (simp add: student_search_def query_students_def ordered_def)
  have perm: "mset ordered
      = mset (filter (name_or_email_contains C search_term) (students db))"
    using assms(1) unfolding collation_ok_def ordered_def by blast
  have srt: "sorted_wrt (name_le C) ordered"
    using assms(1) unfolding collation_ok_def ordered_def by blast
  have "sorted_wrt (name_le C) (take 50 ordered)"
    by (rule sorted_wrt_take[OF srt])
  with run perm srt have "student_search C search_term db = Some (Inr (take 50 ordered)) \<and>
           mset ordered = mset (filter (name_or_email_contains C search_term) (students db)) \<and>
           sorted_wrt (name_le C) ordered \<and>
           take 50 ordered = take 50 ordered \<and>
           length (take 50 ordered) \<le> 50 \<and> sorted_wrt (name_le C) (take 50 ordered)"
    by simp
  then show ?thesis by blast
qed

theorem student_search_plain_term_witness:
  "\<exists>rows ordered. student_search c_collation ''gil'' example_db = Some (Inr rows) \<and>
      mset ordered
        = mset (filter (name_or_email_contains c_collation ''gil'') (students example_db)) \<and>
      sorted_wrt (name_le c_collation) ordered \<and>
      rows = take 50 ordered \<and>
      length rows \<le> 50 \<and> sorted_wrt (name_le c_collation) rows"
  by (rule student_search_plain_term [OF collation_ok_c_collation])
    (simp_all add: like_meta_def)

text \<open>
  Claim C10 holds for every term without a backslash: a student whose email contains the
  term satisfies the \<open>WHERE\<close> clause of the query, so the student is among the rows the
  query orders and cuts to 50.
\<close>

lemma student_search_email_match:
  assumes "collation_ok C" and "search_term \<noteq> []" and "CHR 0x5C \<notin> set search_term"
    and "icontains C (s_email s) search_term"
  shows "\<exists>pat. student_search C search_term db
           = Some (Inr (take 50 (order_by_name C (filter (student_matches C pat) (students db)))))
         \<and> student_matches C pat s"
proof -
  from ilike_contained[OF assms(1,3,4)] obtain pat where
    "like_tokens (fold_case C (''%'' @ search_term @ ''%'')) = Some pat"
    "ilike C pat (s_email s)"
    by blast
  with assms(2) show ?thesis
    by (auto simp: student_search_def query_students_def student_matches_def)
qed

text \<open>
  Claim C10 fails for a term with a backslash. The email of the only student of
  \<open>backslash_db\<close> contains a backslash; the search for the backslash builds the pattern
  of a percent sign, a backslash and a percent sign, in which the backslash escapes the
  second percent sign, so the pattern matches the strings that end with a percent sign,
  and the search returns no row. Term and email are ASCII text without letters of two
  cases in the term, so the collation plays no part; the search is run under \<open>C\<close>.
\<close>

theorem student_search_misses_backslash_email:
  "students backslash_db
   = [\<lparr>s_id = 7, s_first_name = ''Bob'', s_last_name = ''Ray'',
        s_email = ''bob'' @ [CHR 0x5C] @ ''ray@student.example.com'',
        s_registration_date = 738100\<rparr>] \<and>
   icontains c_collation (''bob'' @ [CHR 0x5C] @ ''ray@student.example.com'') [CHR 0x5C] \<and>
   student_search c_collation [CHR 0x5C] backslash_db = Some (Inr [])"
  unfolding backslash_search_run
  by (simp add: backslash_db_def icontains_def c_collation_def lower_def lower_char_def
      sublist_Cons_right)

section \<open>Course overview: the rows of the report\<close>

subsection \<open>Filters and joined rows\<close>

lemma where_clause_build_filters:
  "where_clause (build_filters teacher levels (Some range_start) (Some range_end)) c
   \<longleftrightarrow> course_selected teacher levels range_start range_end c"
  apply (simp only: build_filters_def course_selected_def)
  apply (cases teacher)
  apply (simp_all add: where_clause_def)
  done

lemma set_left_join_enrollment:
  "(c', t', eo) \<in> set (left_join_enrollment db c t) \<longleftrightarrow>
     c' = c \<and> t' = t \<and>
     (case eo of
        None \<Rightarrow> (\<forall>e\<in>set (enrollments db). e_course_id e \<noteq> c_id c)
      | Some e \<Rightarrow> e \<in> set (enrollments db) \<and> e_course_id e = c_id c)"
proof (cases "filter (\<lambda>e. e_course_id e = c_id c) (enrollments db)")
  case Nil
  then have "\<forall>e\<in>set (enrollments db). e_course_id e \<noteq> c_id c"
    by (simp add: filter_empty_conv)
  with Nil show ?thesis
    by (auto simp: left_join_enrollment_def split: option.splits)
next
  case (Cons e es)
  then have "e \<in> set (filter (\<lambda>e. e_course_id e = c_id c) (enrollments db))"
    by simp
  then have ex: "e \<in> set (enrollments db) \<and> e_course_id e = c_id c"
    by simp
  have "left_join_enrollment db c t
        = map (\<lambda>e. (c, t, Some e)) (filter (\<lambda>e. e_course_id e = c_id c) (enrollments db))"
    by (simp add: left_join_enrollment_def Cons)
  then have "set (left_join_enrollment db c t)
        = (\<lambda>e. (c, t, Some e)) ` {e \<in> set (enrollments db). e_course_id e = c_id c}"
    by simp
  with ex show ?thesis by (auto split: option.splits)
qed

lemma set_from_clause:
  "(c, t, eo) \<in> set (from_clause db) \<longleftrightarrow>
     c \<in> set (courses db) \<and> t \<in> set (teachers db) \<and> t_id t = c_teacher_id c \<and>
     (case eo of
        None \<Rightarrow> (\<forall>e\<in>set (enrollments db). e_course_id e \<noteq> c_id c)
      | Some e \<Rightarrow> e \<in> set (enrollments db) \<and> e_course_id e = c_id c)"
  by (auto simp: from_clause_def set_left_join_enrollment)

lemma from_clause_has_row:
  assumes "c \<in> set (courses db)" "t \<in> set (teachers db)" "t_id t = c_teacher_id c"
  shows "\<exists>eo. (c, t, eo) \<in> set (from_clause db)"
proof (cases "\<forall>e\<in>set (enrollments db). e_course_id e \<noteq> c_id c")
  case True
  with assms have "(c, t, None) \<in> set (from_clause db)" by (simp add: set_from_clause)
  then show ?thesis ..
next
  case False
  then obtain e where "e \<in> set (enrollments db)" "e_course_id e = c_id c" by blast
  with assms have "(c, t, Some e) \<in> set (from_clause db)" by (simp add: set_from_clause)
  then show ?thesis ..
qed

lemma distinct_map_eq:
  "distinct (map f xs) \<Longrightarrow> x \<in> set xs \<Longrightarrow> y \<in> set xs \<Longrightarrow> f x = f y \<Longrightarrow> x = y"
  by (meson distinct_map inj_onD)

lemma from_clause_same_course:
  assumes keys: "schema_keys db"
    and r1: "(c1, t1, e1) \<in> set (from_clause db)"
    and r2: "(c2, t2, e2) \<in> set (from_clause db)"
    and eq: "c_id c1 = c_id c2"
  shows "c1 = c2 \<and> t1 = t2"
proof -
  from keys have dc: "distinct (map c_id (courses db))" and dt: "distinct (map t_id (teachers db))"
    by (simp_all add: schema_keys_def)
  from r1 r2 have in1: "c1 \<in> set (courses db)" "t1 \<in> set (teachers db)" "t_id t1 = c_teacher_id c1"
    and in2: "c2 \<in> set (courses db)" "t2 \<in> set (teachers db)" "t_id t2 = c_teacher_id c2"
    by (simp_all add: set_from_clause)
  from distinct_map_eq[OF dc in1(1) in2(1) eq] have c: "c1 = c2" .
  with in1(3) in2(3) have "t_id t1 = t_id t2" by simp
  from distinct_map_eq[OF dt in1(2) in2(2) this] c show ?thesis by simp
qed

lemma set_selected_rows:
  "(c, t, eo) \<in> set (selected_rows filters db) \<longleftrightarrow>
     (c, t, eo) \<in> set (from_clause db) \<and> where_clause filters c"
  by (auto simp: selected_rows_def)

lemma query_courses_stats_alt:
  "query_courses_stats filters db
   = sort_key r_start_date (map select_row (group_by group_key (selected_rows filters db)))"
  by (simp add: query_courses_stats_def selected_rows_def)

lemma r_id_select_row: "r_id (select_row (k, g)) = fst k"
  by (cases k) (simp add: select_row_def)

lemma set_query_courses_stats:
  "r \<in> set (query_courses_stats filters db) \<longleftrightarrow>
     (\<exists>row\<in>set (selected_rows filters db).
        r = select_row (group_key row,
              filter (\<lambda>x. group_key x = group_key row) (selected_rows filters db)))"
  by (auto simp: query_courses_stats_alt group_by_def)

lemma select_row_course:
  "r = select_row (group_key (c, t, eo), g) \<Longrightarrow>
     r_id r = c_id c \<and> r_title r = c_title c \<and> r_level r = c_level c \<and>
     r_start_date r = c_start_date c \<and> r_end_date r = c_end_date c \<and>
     r_teacher_name r = full_name t \<and> total_enrollments r = count_e_id g \<and>
     active_count r = sum_case_status ''active'' g \<and>
     completed_count r = sum_case_status ''completed'' g \<and>
     dropped_count r = sum_case_status ''dropped'' g"
  by (simp add: select_row_def group_key_def)

lemma ids_query_courses_stats:
  assumes "schema_keys db"
  shows "set (map r_id (query_courses_stats filters db))
         = c_id ` {c \<in> set (courses db). where_clause filters c}"
proof (intro set_eqI iffI)
  fix i assume "i \<in> set (map r_id (query_courses_stats filters db))"
  then obtain r where r: "r \<in> set (query_courses_stats filters db)" "i = r_id r" by auto
  then obtain row where row: "row \<in> set (selected_rows filters db)"
    "r = select_row (group_key row,
              filter (\<lambda>x. group_key x = group_key row) (selected_rows filters db))"
    unfolding set_query_courses_stats by blast
  obtain c t eo where [simp]: "row = (c, t, eo)" by (cases row)
  from row(1) have "c \<in> set (courses db)" "where_clause filters c"
    by (simp_all add: set_selected_rows set_from_clause)
  moreover from select_row_course[OF row(2)[unfolded \<open>row = (c, t, eo)\<close>]] r(2) have "i = c_id c"
    by simp
  ultimately show "i \<in> c_id ` {c \<in> set (courses db). where_clause filters c}" by blast
next
  fix i assume "i \<in> c_id ` {c \<in> set (courses db). where_clause filters c}"
  then obtain c where c: "c \<in> set (courses db)" "where_clause filters c" "i = c_id c" by blast
  from assms c(1) have "c_teacher_id c \<in> set (map t_id (teachers db))"
    by (simp add: schema_keys_def list_all_iff)
  then obtain t where t: "t \<in> set (teachers db)" "t_id t = c_teacher_id c" by auto
  from from_clause_has_row[OF c(1) t] obtain eo where "(c, t, eo) \<in> set (from_clause db)" ..
  with c(2) have row: "(c, t, eo) \<in> set (selected_rows filters db)"
    by (simp add: set_selected_rows)
  define r where "r = select_row (group_key (c, t, eo),
              filter (\<lambda>x. group_key x = group_key (c, t, eo)) (selected_rows filters db))"
  from row have "r \<in> set (query_courses_stats filters db)"
    unfolding set_query_courses_stats r_def by blast
  moreover from select_row_course[OF r_def] c(3) have "r_id r = i" by simp
  ultimately show "i \<in> set (map r_id (query_courses_stats filters db))" by force
qed

lemma distinct_map_sort_key:
  "distinct (map g (sort_key f xs)) \<longleftrightarrow> distinct (map g xs)"
  by (simp add: distinct_map)

lemma distinct_ids_query_courses_stats:
  assumes "schema_keys db"
  shows "distinct (map r_id (query_courses_stats filters db))"
proof -
  let ?rows = "selected_rows filters db"
  let ?keys = "remdups (map group_key ?rows)"
  have "map r_id (map select_row (group_by group_key ?rows)) = map fst ?keys"
    by (simp add: group_by_def comp_def r_id_select_row)
  moreover have "distinct (map fst ?keys)"
  proof (subst distinct_map, intro conjI inj_onI)
    show "distinct ?keys" by simp
  next
    fix k1 k2 assume "k1 \<in> set ?keys" "k2 \<in> set ?keys" and eq: "fst k1 = fst k2"
    then obtain row1 row2 where rows: "row1 \<in> set ?rows" "k1 = group_key row1"
      "row2 \<in> set ?rows" "k2 = group_key row2" by auto
    obtain c1 t1 e1 c2 t2 e2 where [simp]: "row1 = (c1, t1, e1)" "row2 = (c2, t2, e2)"
      by (cases row1, cases row2) auto
    from rows have in_from: "(c1, t1, e1) \<in> set (from_clause db)" "(c2, t2, e2) \<in> set (from_clause db)"
      by (simp_all add: set_selected_rows)
    from eq rows have "c_id c1 = c_id c2" by (simp add: group_key_def)
    from from_clause_same_course[OF assms in_from this] rows show "k1 = k2"
      by (simp add: group_key_def)
  qed
  ultimately show ?thesis
    by (simp only: query_courses_stats_alt distinct_map_sort_key)
qed

lemma sorted_query_courses_stats:
  "sorted (map r_start_date (query_courses_stats filters db))"
  by (simp add: query_courses_stats_def)

lemma no_enrollment_aggregates:
  "\<forall>row\<in>set g. snd (snd row) = None \<Longrightarrow>
   count_e_id g = 0 \<and> sum_case_status status g = 0"
  by (induction g) (auto simp: count_e_id_def sum_case_status_def)

subsection \<open>The overview of the small database\<close>

lemma schema_keys_example: "schema_keys example_db"
  by (simp add: schema_keys_def example_db_def)

lemma example_overview_run:
  "course_overview [(1, ''Grace Hopper'')] ''All'' [] (Some 738000) (Some 739000) example_db
   = Inr [\<lparr>r_id = 2, r_title = ''Linux for Developers #2'', r_level = ''Advanced'',
            r_start_date = 738500, r_end_date = 738560, r_teacher_name = ''Grace Hopper'',
            total_enrollments = 0, active_count = 0, completed_count = 0, dropped_count = 0\<rparr>,
          \<lparr>r_id = 1, r_title = ''Introduction to SQL #1'', r_level = ''Beginner'',
            r_start_date = 738600, r_end_date = 738660, r_teacher_name = ''Grace Hopper'',
            total_enrollments = 1, active_count = 1, completed_count = 0, dropped_count = 0\<rparr>]"
  by (simp add: course_overview_def selected_teacher_def build_filters_def
      query_courses_stats_def from_clause_def left_join_enrollment_def example_db_def
      where_clause_def group_by_def group_key_def full_name_def select_row_def
      count_e_id_def sum_case_status_def)

subsection \<open>Claims C2 and C3\<close>

text \<open>
  Claim C2. In a database that satisfies the keys of the schema, for every selected
  teacher (resolved from the name picked in the select box, or none for \<open>All\<close>), every
  list of levels and every range of dates, the overview returns one row for each course
  that satisfies the conjunction of the active filters and no other row: the ids of the
  rows are exactly the ids of the selected courses, no id occurs twice, every row carries
  the columns of its course, and the rows are in ascending order of start date.
\<close>

theorem course_overview_selects_courses:
  assumes keys: "schema_keys db"
    and teacher: "selected_teacher teachers_df teacher_choice = Inr teacher"
  shows "\<exists>rows. course_overview teachers_df teacher_choice levels
                   (Some range_start) (Some range_end) db = Inr rows \<and>
           set (map r_id rows)
             = c_id ` {c \<in> set (courses db).
                         course_selected teacher levels range_start range_end c} \<and>
           distinct (map r_id rows) \<and>
           sorted (map r_start_date rows) \<and>
           (\<forall>r\<in>set rows. \<exists>c\<in>set (courses db).
              course_selected teacher levels range_start range_end c \<and>
              r_id r = c_id c \<and> r_title r = c_title c \<and> r_level r = c_level c \<and>
              r_start_date r = c_start_date c \<and> r_end_date r = c_end_date c)"
proof -
  let ?filters = "build_filters teacher levels (Some range_start) (Some range_end)"
  let ?rows = "query_courses_stats ?filters db"
  have run: "course_overview teachers_df teacher_choice levels
               (Some range_start) (Some range_end) db = Inr ?rows"
    by (simp add: course_overview_def teacher)
  have ids: "set (map r_id ?rows)
             = c_id ` {c \<in> set (courses db).
                         course_selected teacher levels range_start range_end c}"
    unfolding ids_query_courses_stats[OF keys] where_clause_build_filters ..
  have each: "\<exists>c\<in>set (courses db).
              course_selected teacher levels range_start range_end c \<and>
              r_id r = c_id c \<and> r_title r = c_title c \<and> r_level r = c_level c \<and>
              r_start_date r = c_start_date c \<and> r_end_date r = c_end_date c"
    if "r \<in> set ?rows" for r
  proof -
    from that obtain row where row: "row \<in> set (selected_rows ?filters db)"
      "r = select_row (group_key row,
              filter (\<lambda>x. group_key x = group_key row) (selected_rows ?filters db))"
      unfolding set_query_courses_stats by blast
    obtain c t eo where [simp]: "row = (c, t, eo)" by (cases row)
    from row(1) have "c \<in> set (courses db)"
      "course_selected teacher levels range_start range_end c"
      by (simp_all add: set_selected_rows set_from_clause where_clause_build_filters)
    with select_row_course[OF row(2)[unfolded \<open>row = (c, t, eo)\<close>]] show ?thesis by blast
  qed
  show ?thesis
    using run ids distinct_ids_query_courses_stats[OF keys, of ?filters]
      sorted_query_courses_stats[of ?filters db] each
    by blast
qed

theorem course_overview_selects_courses_witness:
  "\<exists>rows. course_overview [(1, ''Grace Hopper'')] ''Grace Hopper'' [''Beginner'']
                   (Some 738000) (Some 739000) example_db = Inr rows \<and>
           set (map r_id rows)
             = c_id ` {c \<in> set (courses example_db).
                         course_selected (Some 1) [''Beginner''] 738000 739000 c} \<and>
           distinct (map r_id rows) \<and>
           sorted (map r_start_date rows) \<and>
           (\<forall>r\<in>set rows. \<exists>c\<in>set (courses example_db).
              course_selected (Some 1) [''Beginner''] 738000 739000 c \<and>
              r_id r = c_id c \<and> r_title r = c_title c \<and> r_level r = c_level c \<and>
              r_start_date r = c_start_date c \<and> r_end_date r = c_end_date c)"
  by (rule course_overview_selects_courses [where teacher = "Some 1", OF schema_keys_example])
     (simp add: selected_teacher_def)

text \<open>
  Claim C3. A selected course in which nobody is enrolled has a row in the overview, and
  the four counts of that row are zero.
\<close>

theorem course_overview_keeps_empty_courses:
  assumes keys: "schema_keys db"
    and teacher: "selected_teacher teachers_df teacher_choice = Inr teacher"
    and c: "c \<in> set (courses db)"
      "course_selected teacher levels range_start range_end c"
    and none: "\<forall>e\<in>set (enrollments db). e_course_id e \<noteq> c_id c"
  shows "\<exists>rows. course_overview teachers_df teacher_choice levels
                   (Some range_start) (Some range_end) db = Inr rows \<and>
           (\<exists>r\<in>set rows. r_id r = c_id c) \<and>
           (\<forall>r\<in>set rows. r_id r = c_id c \<longrightarrow>
              total_enrollments r = 0 \<and> active_count r = 0 \<and>
              completed_count r = 0 \<and> dropped_count r = 0)"
proof -
  let ?filters = "build_filters teacher levels (Some range_start) (Some range_end)"
  let ?rows = "query_courses_stats ?filters db"
  have run: "course_overview teachers_df teacher_choice levels
               (Some range_start) (Some range_end) db = Inr ?rows"
    by (simp add: course_overview_def teacher)
  from c have "c_id c \<in> c_id ` {c \<in> set (courses db). where_clause ?filters c}"
    by (auto simp: where_clause_build_filters)
  then have "c_id c \<in> set (map r_id ?rows)"
    by (simp only: ids_query_courses_stats[OF keys])
  then have ex: "\<exists>r\<in>set ?rows. r_id r = c_id c" by auto
  have zero: "total_enrollments r = 0 \<and> active_count r = 0 \<and>
              completed_count r = 0 \<and> dropped_count r = 0"
    if r: "r \<in> set ?rows" "r_id r = c_id c" for r
  proof -
    from r(1) obtain row where row: "row \<in> set (selected_rows ?filters db)"
      "r = select_row (group_key row,
              filter (\<lambda>x. group_key x = group_key row) (selected_rows ?filters db))"
      unfolding set_query_courses_stats by blast
    obtain c' t' eo' where [simp]: "row = (c', t', eo')" by (cases row)
    let ?g = "filter (\<lambda>x. group_key x = group_key (c', t', eo')) (selected_rows ?filters db)"
    note sel = select_row_course[OF row(2)[unfolded \<open>row = (c', t', eo')\<close>]]
    from sel r(2) have id': "c_id c' = c_id c" by simp
    have "\<forall>x\<in>set ?g. snd (snd x) = None"
    proof
      fix x assume x: "x \<in> set ?g"
      obtain c2 t2 e2 where [simp]: "x = (c2, t2, e2)" by (cases x)
      from x have in_from: "(c2, t2, e2) \<in> set (from_clause db)"
        and "group_key (c2, t2, e2) = group_key (c', t', eo')"
        by (simp_all add: set_selected_rows)
      then have "c_id c2 = c_id c" using id' by (simp add: group_key_def)
      with in_from none show "snd (snd x) = None"
        by (cases e2) (auto simp: set_from_clause)
    qed
    from no_enrollment_aggregates[OF this] sel show ?thesis by simp
  qed
  from run ex zero show ?thesis by blast
qed

theorem course_overview_keeps_empty_courses_witness:
  "\<exists>rows. course_overview [(1, ''Grace Hopper'')] ''All'' []
                   (Some 738000) (Some 739000) example_db = Inr rows \<and>
           (\<exists>r\<in>set rows. r_id r = c_id linux_course) \<and>
           (\<forall>r\<in>set rows. r_id r = c_id linux_course \<longrightarrow>
              total_enrollments r = 0 \<and> active_count r = 0 \<and>
              completed_count r = 0 \<and> dropped_count r = 0)"
  by (rule course_overview_keeps_empty_courses [where teacher = None, OF schema_keys_example])
     (simp_all add: selected_teacher_def linux_course_def example_db_def course_selected_def)

section \<open>Data Generator: the draws of a row\<close>

subsection \<open>Dates and samples\<close>

lemma today_ordinal: "today = 739266"
  by (simp add: today_def ymd2ord_def days_before_year_def days_before_month_def is_leap_def)

lemma rng_ok_randbelow:
  "rng_ok R \<Longrightarrow> 0 < n \<Longrightarrow> rng_randbelow R n g = (r, g') \<Longrightarrow> r < n"
  unfolding rng_ok_def by (metis fst_conv)

lemma randint_range:
  assumes "rng_ok R" and "randint R a b g = Inr (r, g')"
  shows "a \<le> r \<and> r \<le> b"
proof -
  from assms(2) have w: "b + 1 - a > 0"
    by (auto simp: randint_def Let_def split: if_splits)
  obtain k g1 where k: "rng_randbelow R (nat (b + 1 - a)) g = (k, g1)"
    by (cases "rng_randbelow R (nat (b + 1 - a)) g")
  with assms(2) w have r: "r = a + int k" by (simp add: randint_def Let_def)
  from rng_ok_randbelow[OF assms(1) _ k] w have "k < nat (b + 1 - a)" by simp
  with r show ?thesis by linarith
qed

lemma randint_returns:
  "a \<le> b \<Longrightarrow> \<exists>r g'. randint R a b g = Inr (r, g')"
  by (cases "rng_randbelow R (nat (b + 1 - a)) g") (simp add: randint_def Let_def)

lemma random_date_between_range:
  assumes "rng_ok R" and "random_date_between R start_d end_d g = Inr (d, g')"
  shows "start_d \<le> d \<and> d \<le> end_d"
proof -
  from assms(2) obtain days where days: "randint R 0 (end_d - start_d) g = Inr (days, g')"
    and d: "date_add start_d days = Inr d"
    by (auto simp: random_date_between_def Let_def split: sum.splits)
  from d have "d = start_d + days" by (simp add: date_add_def split: if_splits)
  with randint_range[OF assms(1) days] show ?thesis by simp
qed

lemma random_date_between_returns:
  assumes "rng_ok R" and "start_d \<le> end_d" and "1 \<le> start_d" and "end_d \<le> 3652059"
  shows "\<exists>d g'. random_date_between R start_d end_d g = Inr (d, g')"
proof -
  from assms(2) have "0 \<le> end_d - start_d" by simp
  from randint_returns[OF this, of R g] obtain days g' where
    days: "randint R 0 (end_d - start_d) g = Inr (days, g')" by blast
  from randint_range[OF assms(1) days] assms(3,4)
  have "1 \<le> start_d + days \<and> start_d + days \<le> 3652059" by simp
  with days show ?thesis by (simp add: random_date_between_def date_add_def)
qed

lemma sample_subset:
  assumes "rng_ok R" and "sample R population k g = Inr (chosen, g')"
  shows "set chosen \<subseteq> set population"
proof -
  from assms(2) have k: "0 \<le> k" "k \<le> int (length population)"
    by (auto simp: sample_def Let_def split: if_splits)
  obtain positions g1 where p: "rng_sample R (length population) (nat k) g = (positions, g1)"
    by (cases "rng_sample R (length population) (nat k) g")
  with assms(2) k have chosen: "chosen = map (\<lambda>i. population ! i) positions"
    by (simp add: sample_def Let_def)
  from k have "nat k \<le> length population" by simp
  with assms(1) p have "\<forall>i\<in>set positions. i < length population"
    unfolding rng_ok_def by (metis fst_conv)
  with chosen show ?thesis by auto
qed

lemma sample_returns:
  "0 \<le> k \<Longrightarrow> k \<le> int (length population) \<Longrightarrow>
   \<exists>chosen g'. sample R population k g = Inr (chosen, g')"
  by (cases "rng_sample R (length population) (nat k) g") (simp add: sample_def Let_def)

subsection \<open>The draws of \<open>choose_status_and_grade\<close> and of the loop body\<close>

text \<open>
  The lists of items and weights that \<open>choose_status_and_grade\<close> hands to
  \<open>random.choices\<close> are the tables of the specification.
\<close>

lemma status_draw:
  "(if course_end < today
    then rng_choices R [''completed'', ''active'', ''dropped''] [0.75, 0.05, 0.20] g
    else if course_start > today
    then rng_choices R [''active'', ''completed'', ''dropped''] [0.70, 0.0, 0.30] g
    else rng_choices R [''active'', ''completed'', ''dropped''] [0.60, 0.20, 0.20] g)
   = weighted_draw R (status_weights course_start course_end) g"
  by (simp add: weighted_draw_def status_weights_def)

lemma grade_draw:
  "rng_choices R [''A'', ''B'', ''C'', ''D'', ''E'', ''F'']
     [0.25, 0.30, 0.25, 0.10, 0.05, 0.05] g
   = weighted_draw R grade_weights g"
  by (simp add: weighted_draw_def grade_weights_def)

text \<open>
  \<open>choose_status_and_grade\<close> draws the status from the table of the course's case, in
  the state it is called in; when the status is \<open>completed\<close> it draws the grade from the
  table of the grades, in the state the first draw left; otherwise it draws nothing more.
\<close>

lemma choose_status_and_grade_draws:
  assumes "choose_status_and_grade R course_start course_end enrollment_date g
           = Inr ((status, grade), g')"
  shows "\<exists>g1. weighted_draw R (status_weights course_start course_end) g = Inr (status, g1) \<and>
           (if status = ''completed''
            then \<exists>letter. weighted_draw R grade_weights g1 = Inr (letter, g') \<and>
                   grade = Some letter
            else grade = None \<and> g' = g1)"
proof -
  from assms obtain g1 where
    first: "weighted_draw R (status_weights course_start course_end) g = Inr (status, g1)"
    and rest: "(if status = ''completed''
          then (case weighted_draw R grade_weights g1 of
                  Inl e \<Rightarrow> Inl e
                | Inr (letter, g2) \<Rightarrow> Inr ((status, Some letter), g2))
          else Inr ((status, None), g1)) = Inr ((status, grade), g')"
    unfolding choose_status_and_grade_def status_draw grade_draw
    by (auto split: sum.splits if_splits)
  have "if status = ''completed''
        then \<exists>letter. weighted_draw R grade_weights g1 = Inr (letter, g') \<and> grade = Some letter
        else grade = None \<and> g' = g1"
    using rest by (auto split: sum.splits if_splits)
  with first show ?thesis by blast
qed

text \<open>
  The row that the loop body makes for a student and a course: the date is drawn in the
  window of the course, then the status from the table of the course's case, then, for a
  completed enrollment only, the grade from the table of the grades, each draw in the
  state the one before it left.
\<close>

lemma enrollment_of_draws:
  assumes "enrollment_of R student c enrollment_id g = Inr (row, g')"
  shows "en_id row = enrollment_id \<and> en_student_id row = s_id student \<and>
         en_course_id row = c_id c \<and>
         (\<exists>g1 g2.
            random_date_between R (c_start_date c - 30)
              (min (c_start_date c + 20) (c_end_date c)) g
            = Inr (en_enrollment_date row, g1) \<and>
            weighted_draw R (status_weights (c_start_date c) (c_end_date c)) g1
            = Inr (en_status row, g2) \<and>
            (if en_status row = ''completed''
             then weighted_draw R grade_weights g2 = Inr (en_final_grade row, g')
             else en_final_grade row = [] \<and> g' = g2))"
proof -
  from assms obtain enroll_start start_plus_20 enrollment_date g1 status grade
    where s1: "date_add (c_start_date c) (- 30) = Inr enroll_start"
      and s2: "date_add (c_start_date c) 20 = Inr start_plus_20"
      and s3: "random_date_between R enroll_start (min start_plus_20 (c_end_date c)) g
               = Inr (enrollment_date, g1)"
      and s4: "choose_status_and_grade R (c_start_date c) (c_end_date c) enrollment_date g1
               = Inr ((status, grade), g')"
      and row: "row = \<lparr>en_id = enrollment_id, en_student_id = s_id student,
                 en_course_id = c_id c, en_enrollment_date = enrollment_date,
                 en_status = status, en_final_grade = grade_or_empty grade\<rparr>"
    unfolding enrollment_of_def by (auto split: sum.splits)
  from s1 s2 have dates: "enroll_start = c_start_date c - 30" "start_plus_20 = c_start_date c + 20"
    by (simp_all add: date_add_def split: if_splits)
  from choose_status_and_grade_draws[OF s4] obtain g2 where
    st: "weighted_draw R (status_weights (c_start_date c) (c_end_date c)) g1 = Inr (status, g2)"
    and gr: "if status = ''completed''
            then \<exists>letter. weighted_draw R grade_weights g2 = Inr (letter, g') \<and>
                   grade = Some letter
            else grade = None \<and> g' = g2" by blast
  have a: "random_date_between R (c_start_date c - 30)
              (min (c_start_date c + 20) (c_end_date c)) g
            = Inr (en_enrollment_date row, g1)"
    using s3 dates row by simp
  have b: "weighted_draw R (status_weights (c_start_date c) (c_end_date c)) g1
            = Inr (en_status row, g2)"
    using st row by simp
  have c: "if en_status row = ''completed''
             then weighted_draw R grade_weights g2 = Inr (en_final_grade row, g')
             else en_final_grade row = [] \<and> g' = g2"
    using gr row by (auto simp: grade_or_empty_def split: if_splits)
  from a b c have "\<exists>g1 g2.
            random_date_between R (c_start_date c - 30)
              (min (c_start_date c + 20) (c_end_date c)) g
            = Inr (en_enrollment_date row, g1) \<and>
            weighted_draw R (status_weights (c_start_date c) (c_end_date c)) g1
            = Inr (en_status row, g2) \<and>
            (if en_status row = ''completed''
             then weighted_draw R grade_weights g2 = Inr (en_final_grade row, g')
             else en_final_grade row = [] \<and> g' = g2)" by blast
  with row show ?thesis by simp
qed

section \<open>Data Generator: the rows of \<open>generate_enrollments\<close>\<close>

subsection \<open>Every row is made by the loop body\<close>

text \<open>
  The rows that the loops add are the rows the loop body returns, for the student of the
  outer loop and a course of the sample, with the ids in sequence.
\<close>

lemma enroll_in_courses_origin:
  "enroll_in_courses R student chosen (rows, next_id, g) = Inr (rows', next_id', g') \<Longrightarrow>
   row \<in> set rows' \<Longrightarrow>
   row \<in> set rows \<or>
   (\<exists>c\<in>set chosen. \<exists>i gs gs'. enrollment_of R student c i gs = Inr (row, gs'))"
proof (induction chosen arbitrary: rows next_id g)
  case Nil
  then show ?case by simp
next
  case (Cons c chosen)
  from Cons.prems(1) obtain new_row g1
    where body: "enrollment_of R student c next_id g = Inr (new_row, g1)"
      and rest: "enroll_in_courses R student chosen (rows @ [new_row], next_id + 1, g1)
                 = Inr (rows', next_id', g')"
    by (auto split: sum.splits)
  from Cons.IH[OF rest Cons.prems(2)]
  consider "row \<in> set rows" | "row = new_row"
    | "\<exists>c\<in>set chosen. \<exists>i gs gs'. enrollment_of R student c i gs = Inr (row, gs')"
    by auto
  then show ?case
  proof cases
    case 1
    then show ?thesis by simp
  next
    case 2
    with body have "enrollment_of R student c next_id g = Inr (row, g1)" by simp
    then have "\<exists>i gs gs'. enrollment_of R student c i gs = Inr (row, gs')" by blast
    then show ?thesis by simp
  next
    case 3
    then show ?thesis by auto
  qed
qed

lemma enroll_students_origin:
  assumes ok: "rng_ok R"
  shows "enroll_students R student_rows course_rows (rows, next_id, g) = Inr (rows', next_id', g') \<Longrightarrow>
         row \<in> set rows' \<Longrightarrow>
         row \<in> set rows \<or>
         (\<exists>student\<in>set student_rows. \<exists>c\<in>set course_rows. \<exists>i gs gs'.
            enrollment_of R student c i gs = Inr (row, gs'))"
proof (induction student_rows arbitrary: rows next_id g)
  case Nil
  then show ?case by simp
next
  case (Cons student student_rows)
  from Cons.prems(1) obtain num g1 chosen g2 rows1 id1 g3
    where s1: "randint R 1 4 g = Inr (num, g1)"
      and s2: "sample R course_rows num g1 = Inr (chosen, g2)"
      and s3: "enroll_in_courses R student chosen (rows, next_id, g2) = Inr (rows1, id1, g3)"
      and rest: "enroll_students R student_rows course_rows (rows1, id1, g3)
                 = Inr (rows', next_id', g')"
    by (auto split: sum.splits)
  from Cons.IH[OF rest Cons.prems(2)]
  consider "row \<in> set rows1"
    | "\<exists>student\<in>set student_rows. \<exists>c\<in>set course_rows. \<exists>i gs gs'.
            enrollment_of R student c i gs = Inr (row, gs')"
    by blast
  then show ?case
  proof cases
    case 1
    from enroll_in_courses_origin[OF s3 1] sample_subset[OF ok s2]
    have "row \<in> set rows \<or>
          (\<exists>c\<in>set course_rows. \<exists>i gs gs'. enrollment_of R student c i gs = Inr (row, gs'))"
      by blast
    then show ?thesis by auto
  next
    case 2
    then show ?thesis by auto
  qed
qed

lemma generate_enrollments_origin:
  assumes "rng_ok R"
    and "generate_enrollments R student_rows course_rows g = Inr (rows, g')"
    and "row \<in> set rows"
  shows "\<exists>student\<in>set student_rows. \<exists>c\<in>set course_rows. \<exists>i gs gs'.
           enrollment_of R student c i gs = Inr (row, gs')"
proof -
  from assms(2) obtain next_id where
    "enroll_students R student_rows course_rows ([], 1, g) = Inr (rows, next_id, g')"
    by (auto simp: generate_enrollments_def split: sum.splits)
  from enroll_students_origin[OF assms(1) this assms(3)] show ?thesis by simp
qed

subsection \<open>The generation returns\<close>

lemma choices_ok_returns:
  assumes "choices_ok R"
    and "length weights = length population"
    and "\<forall>w\<in>set weights. w = 0 \<or> (1 / 100 \<le> w \<and> w \<le> 1)"
    and "\<exists>w\<in>set weights. w \<noteq> 0"
  shows "\<exists>a g'. rng_choices R population weights g = Inr (a, g') \<and> a \<in> set population"
  using assms unfolding choices_ok_def by blast

lemma status_draw_returns:
  assumes "choices_ok R"
  shows "\<exists>status g'. weighted_draw R (status_weights course_start course_end) g
           = Inr (status, g') \<and>
           status \<in> {''completed'', ''active'', ''dropped''}"
proof -
  let ?t = "status_weights course_start course_end"
  have "\<exists>a g'. rng_choices R (map fst ?t) (map snd ?t) g = Inr (a, g') \<and> a \<in> set (map fst ?t)"
    by (rule choices_ok_returns[OF assms]) (auto simp: status_weights_def)
  moreover have "set (map fst ?t) = {''completed'', ''active'', ''dropped''}"
    by (auto simp: status_weights_def)
  ultimately show ?thesis unfolding weighted_draw_def by auto
qed

lemma grade_draw_returns:
  assumes "choices_ok R"
  shows "\<exists>letter g'. weighted_draw R grade_weights g = Inr (letter, g') \<and>
           letter \<in> {''A'', ''B'', ''C'', ''D'', ''E'', ''F''}"
proof -
  have "\<exists>a g'. rng_choices R (map fst grade_weights) (map snd grade_weights) g = Inr (a, g')
          \<and> a \<in> set (map fst grade_weights)"
    by (rule choices_ok_returns[OF assms]) (auto simp: grade_weights_def)
  moreover have "set (map fst grade_weights) = {''A'', ''B'', ''C'', ''D'', ''E'', ''F''}"
    by (auto simp: grade_weights_def)
  ultimately show ?thesis unfolding weighted_draw_def by auto
qed

lemma choose_status_and_grade_returns:
  assumes "choices_ok R"
  shows "\<exists>status grade g'. choose_status_and_grade R course_start course_end enrollment_date g
           = Inr ((status, grade), g')"
proof -
  from status_draw_returns[OF assms, of course_start course_end g] obtain status g1 where
    st: "weighted_draw R (status_weights course_start course_end) g = Inr (status, g1)"
    by blast
  from grade_draw_returns[OF assms, of g1] obtain letter g2 where
    gr: "weighted_draw R grade_weights g1 = Inr (letter, g2)" by blast
  show ?thesis
    unfolding choose_status_and_grade_def status_draw grade_draw
    by (cases "status = ''completed''") (simp_all add: st gr)
qed

lemma enrollment_of_returns:
  assumes ok: "rng_ok R" and ch: "choices_ok R" and w: "enrollment_window_ok c"
  shows "\<exists>row g'. enrollment_of R student c enrollment_id g = Inr (row, g')"
proof -
  from w have w: "31 \<le> c_start_date c" "c_start_date c + 20 \<le> 3652059"
    "c_start_date c - 30 \<le> c_end_date c"
    by (simp_all add: enrollment_window_ok_def)
  from w have s1: "date_add (c_start_date c) (- 30) = Inr (c_start_date c - 30)"
    and s2: "date_add (c_start_date c) 20 = Inr (c_start_date c + 20)"
    by (simp_all add: date_add_def)
  from w have "c_start_date c - 30 \<le> min (c_start_date c + 20) (c_end_date c)"
    "1 \<le> c_start_date c - 30" "min (c_start_date c + 20) (c_end_date c) \<le> 3652059"
    by simp_all
  from random_date_between_returns[OF ok this, of g] obtain enrollment_date g1 where
    s3: "random_date_between R (c_start_date c - 30)
           (min (c_start_date c + 20) (c_end_date c)) g = Inr (enrollment_date, g1)" by blast
  from choose_status_and_grade_returns[OF ch, of "c_start_date c" "c_end_date c" enrollment_date g1]
  obtain status grade g2 where
    s4: "choose_status_and_grade R (c_start_date c) (c_end_date c) enrollment_date g1
         = Inr ((status, grade), g2)" by blast
  show ?thesis
    unfolding enrollment_of_def by (simp add: s1 s2 s3 s4)
qed

lemma enroll_in_courses_returns:
  assumes ok: "rng_ok R" and ch: "choices_ok R"
  shows "\<forall>c\<in>set chosen. enrollment_window_ok c \<Longrightarrow>
         \<exists>state'. enroll_in_courses R student chosen state = Inr state'"
proof (induction chosen arbitrary: state)
  case Nil
  have "enroll_in_courses R student [] state = Inr state" by simp
  then show ?case ..
next
  case (Cons c chosen)
  obtain rows next_id g where state: "state = (rows, next_id, g)"
    using prod_cases3 by blast
  from Cons.prems have w: "enrollment_window_ok c"
    and rest: "\<forall>c\<in>set chosen. enrollment_window_ok c"
    by simp_all
  from enrollment_of_returns[OF ok ch w, of student next_id g] obtain row g1 where
    body: "enrollment_of R student c next_id g = Inr (row, g1)" by blast
  from Cons.IH[OF rest] show ?case
    unfolding state by (simp add: body)
qed

lemma enroll_students_returns:
  assumes ok: "rng_ok R" and ch: "choices_ok R" and n: "4 \<le> length course_rows"
    and w: "\<forall>c\<in>set course_rows. enrollment_window_ok c"
  shows "\<exists>state'. enroll_students R student_rows course_rows state = Inr state'"
proof (induction student_rows arbitrary: state)
  case Nil
  have "enroll_students R [] course_rows state = Inr state" by simp
  then show ?case ..
next
  case (Cons student student_rows)
  obtain rows next_id g where state: "state = (rows, next_id, g)"
    using prod_cases3 by blast
  from randint_returns[of 1 4 R g] obtain num g1 where
    s1: "randint R 1 4 g = Inr (num, g1)" by auto
  from randint_range[OF ok s1] n have "0 \<le> num" "num \<le> int (length course_rows)" by simp_all
  from sample_returns[OF this, of R g1] obtain chosen g2 where
    s2: "sample R course_rows num g1 = Inr (chosen, g2)" by blast
  from sample_subset[OF ok s2] w have "\<forall>c\<in>set chosen. enrollment_window_ok c" by blast
  from enroll_in_courses_returns[OF ok ch this, of student "(rows, next_id, g2)"]
  obtain state1 where
    s3: "enroll_in_courses R student chosen (rows, next_id, g2) = Inr state1" by blast
  from Cons.IH[of state1] show ?case
    unfolding state by (simp add: s1 s2 s3)
qed

text \<open>
  On at least four courses that have a window, the generation returns its rows: no
  exception is raised.
\<close>

lemma generate_enrollments_returns:
  assumes "rng_ok R" and "choices_ok R" and "4 \<le> length course_rows"
    and "\<forall>c\<in>set course_rows. enrollment_window_ok c"
  shows "\<exists>rows g'. generate_enrollments R student_rows course_rows g = Inr (rows, g')"
proof -
  from enroll_students_returns[OF assms, of student_rows "([], 1, g)"]
  obtain state' where "enroll_students R student_rows course_rows ([], 1, g) = Inr state'"
    by blast
  then show ?thesis
    by (cases state') (simp add: generate_enrollments_def)
qed

text \<open>The courses of \<open>generate_courses\<close> have a window.\<close>

lemma generated_course_window:
  assumes "ymd2ord 2023 1 1 \<le> c_start_date c" and "c_start_date c \<le> ymd2ord 2025 12 31"
    and "30 \<le> duration_days" and "duration_days \<le> 90"
    and "c_end_date c = c_start_date c + duration_days"
  shows "enrollment_window_ok c"
  using assms
  by (simp add: enrollment_window_ok_def ymd2ord_def days_before_year_def
      days_before_month_def is_leap_def)

subsection \<open>The small generator\<close>

lemma counter_randbelow: "0 < n \<Longrightarrow> fst (rng_randbelow counter_source n g) < n"
  by (simp add: counter_source_def)

lemma counter_sample:
  assumes "k \<le> n"
  shows "length (fst (rng_sample counter_source n k g)) = k
         \<and> distinct (fst (rng_sample counter_source n k g))
         \<and> (\<forall>i\<in>set (fst (rng_sample counter_source n k g)). i < n)"
proof -
  let ?xs = "take k (rotate g [0..<n])"
  have sel: "fst (rng_sample counter_source n k g) = ?xs"
    by (simp add: counter_source_def)
  have len: "length ?xs = k"
    using assms by (simp only: length_take length_rotate length_upt)
  have "distinct (rotate g [0..<n])"
    by (simp only: distinct_rotate distinct_upt)
  then have dist: "distinct ?xs" by (rule distinct_take)
  have "set ?xs \<subseteq> set (rotate g [0..<n])" by (rule set_take_subset)
  also have "\<dots> = set [0..<n]" by (simp only: set_rotate)
  finally have "\<forall>i\<in>set ?xs. i < n" by (auto simp only: set_upt atLeastLessThan_iff)
  with len dist show ?thesis unfolding sel by blast
qed

lemma rng_ok_counter_source: "rng_ok counter_source"
  unfolding rng_ok_def using counter_randbelow counter_sample by blast

lemma weighted_choice_in_items:
  "weighted_choice items x = Some a \<Longrightarrow> a \<in> fst ` set items"
  by (induction items x rule: weighted_choice.induct) (auto split: if_splits)

lemma counter_choices_member:
  assumes "counter_choices population weights g = Inr (a, g')"
  shows "a \<in> set population"
proof -
  from assms have ne: "population \<noteq> []"
    by (auto simp: counter_choices_def split: if_splits)
  show ?thesis
  proof (cases "weighted_choice (zip population weights)
                   (of_nat (g mod 100) / 100 * sum_list weights)")
    case None
    with assms ne have "a = last population"
      by (auto simp: counter_choices_def split: if_splits)
    with ne show ?thesis by simp
  next
    case (Some b)
    with assms have "a = b"
      by (auto simp: counter_choices_def split: if_splits)
    with weighted_choice_in_items[OF Some] have "a \<in> fst ` set (zip population weights)"
      by simp
    then show ?thesis by (auto dest: set_zip_leftD)
  qed
qed

lemma choices_ok_counter_source: "choices_ok counter_source"
proof -
  have "\<exists>a g'. counter_choices population weights g = Inr (a, g') \<and> a \<in> set population"
    if len: "length weights = length population"
      and range: "\<forall>w\<in>set weights. w = 0 \<or> (1 / 100 \<le> w \<and> w \<le> 1)"
      and pos: "\<exists>w\<in>set weights. w \<noteq> 0"
    for population weights g
  proof -
    from pos len have ne: "population \<noteq> []" by auto
    from range have nonneg: "\<forall>w\<in>set weights. 0 \<le> w" by auto
    from pos range obtain w where w: "w \<in> set weights" "0 < w" by fastforce
    have "w \<le> sum_list weights"
      by (rule member_le_sum_list[OF w(1)]) (use nonneg in auto)
    with w(2) have total: "0 < sum_list weights" by simp
    have "\<exists>r. counter_choices population weights g = Inr r"
      using len ne total
      by (cases "weighted_choice (zip population weights)
                   (of_nat (g mod 100) / 100 * sum_list weights)")
        (simp_all add: counter_choices_def)
    then obtain r where r: "counter_choices population weights g = Inr r" by blast
    obtain a g' where "r = (a, g')" by (cases r)
    with r counter_choices_member[of population weights g a g'] show ?thesis by auto
  qed
  then show ?thesis
    unfolding choices_ok_def by (simp add: counter_source_def)
qed

text \<open>
  One student and the two courses of the small database, from state 0: the student
  takes one course, the second; the date is drawn in state 2, the status in state 3 and
  the grade in state 4.
\<close>

lemma example_generation_run:
  "generate_enrollments counter_source (students example_db) (courses example_db) 0
   = Inr ([\<lparr>en_id = 1, en_student_id = 1, en_course_id = 2, en_enrollment_date = 738472,
             en_status = ''completed'', en_final_grade = ''A''\<rparr>], 5)"
  by (simp add: generate_enrollments_def example_db_def counter_source_def randint_def
      sample_def enrollment_of_def random_date_between_def date_add_def
      choose_status_and_grade_def today_ordinal counter_choices_def grade_or_empty_def
      Let_def)

subsection \<open>Claims C6, C7 and C8\<close>

text \<open>
  Claim C6. Every row that \<open>generate_enrollments\<close> returns is the row of one of the
  courses, and its status is what the weighted choice of \<open>random.choices\<close> returned for
  the table of that course's case, drawn in the state in which the draw of the row's
  enrollment date left the generator. The table is chosen by comparing the reference date
  (15 January 2025) with the dates of the course: completed 0.75, active 0.05, dropped 0.20
  when the course ended before the reference date; active 0.70, completed 0.0, dropped
  0.30 when it starts after it; active 0.60, completed 0.20, dropped 0.20 otherwise. What
  \<open>random.choices\<close> computes from the weights is the library's and is not modelled.
  (\<open>generate_enrollments_returns\<close>: on at least four courses with a window the
  generation returns its rows.)
\<close>

theorem generated_status_weighted_choice:
  assumes "rng_ok R"
    and "generate_enrollments R student_rows course_rows g = Inr (rows, g')"
    and "row \<in> set rows"
  shows "\<exists>c\<in>set course_rows. \<exists>g0 g1 g2.
           en_course_id row = c_id c \<and>
           random_date_between R (c_start_date c - 30)
             (min (c_start_date c + 20) (c_end_date c)) g0
           = Inr (en_enrollment_date row, g1) \<and>
           weighted_draw R (status_weights (c_start_date c) (c_end_date c)) g1
           = Inr (en_status row, g2)"
proof -
  from generate_enrollments_origin[OF assms] obtain student c i gs gs' where
    c: "c \<in> set course_rows" and body: "enrollment_of R student c i gs = Inr (row, gs')"
    by blast
  from enrollment_of_draws[OF body] obtain g1 g2 where
    "en_course_id row = c_id c"
    "random_date_between R (c_start_date c - 30)
       (min (c_start_date c + 20) (c_end_date c)) gs
     = Inr (en_enrollment_date row, g1)"
    "weighted_draw R (status_weights (c_start_date c) (c_end_date c)) g1
     = Inr (en_status row, g2)"
    by blast
  with c show ?thesis by blast
qed

theorem generated_status_weighted_choice_witness:
  "\<exists>c\<in>set (courses example_db). \<exists>g0 g1 g2.
      en_course_id \<lparr>en_id = 1, en_student_id = 1, en_course_id = 2,
        en_enrollment_date = 738472, en_status = ''completed'', en_final_grade = ''A''\<rparr>
      = c_id c \<and>
      random_date_between counter_source (c_start_date c - 30)
        (min (c_start_date c + 20) (c_end_date c)) g0
      = Inr (en_enrollment_date \<lparr>en_id = 1, en_student_id = 1, en_course_id = 2,
          en_enrollment_date = 738472, en_status = ''completed'', en_final_grade = ''A''\<rparr>, g1) \<and>
      weighted_draw counter_source (status_weights (c_start_date c) (c_end_date c)) g1
      = Inr (en_status \<lparr>en_id = 1, en_student_id = 1, en_course_id = 2,
          en_enrollment_date = 738472, en_status = ''completed'', en_final_grade = ''A''\<rparr>, g2)"
  by (rule generated_status_weighted_choice
        [OF rng_ok_counter_source example_generation_run]) simp

text \<open>
  Claim C7. In every row that \<open>generate_enrollments\<close> returns, the grade is non-empty
  exactly when the status is \<open>completed\<close>. When the status is \<open>completed\<close>, the grade is
  what the weighted choice of \<open>random.choices\<close> returned for the table A 0.25, B 0.30,
  C 0.25, D 0.10, E 0.05, F 0.05, drawn in the state in which the draw of the row's status
  left the generator; when it is not, the grade is empty and nothing is drawn.
\<close>

theorem generated_final_grade_iff_completed:
  assumes "rng_ok R" and "choices_ok R"
    and "generate_enrollments R student_rows course_rows g = Inr (rows, g')"
    and "row \<in> set rows"
  shows "(en_final_grade row \<noteq> [] \<longleftrightarrow> en_status row = ''completed'') \<and>
         (\<exists>c\<in>set course_rows. \<exists>g1 g2 g3.
            en_course_id row = c_id c \<and>
            weighted_draw R (status_weights (c_start_date c) (c_end_date c)) g1
            = Inr (en_status row, g2) \<and>
            (if en_status row = ''completed''
             then weighted_draw R grade_weights g2 = Inr (en_final_grade row, g3)
             else en_final_grade row = [] \<and> g3 = g2))"
proof -
  from generate_enrollments_origin[OF assms(1,3,4)] obtain student c i gs gs' where
    c: "c \<in> set course_rows" and body: "enrollment_of R student c i gs = Inr (row, gs')"
    by blast
  from enrollment_of_draws[OF body] obtain g1 g2 where
    id: "en_course_id row = c_id c"
    and st: "weighted_draw R (status_weights (c_start_date c) (c_end_date c)) g1
             = Inr (en_status row, g2)"
    and gr: "if en_status row = ''completed''
             then weighted_draw R grade_weights g2 = Inr (en_final_grade row, gs')
             else en_final_grade row = [] \<and> gs' = g2"
    by blast
  have iff: "en_final_grade row \<noteq> [] \<longleftrightarrow> en_status row = ''completed''"
  proof (cases "en_status row = ''completed''")
    case True
    with gr have d: "weighted_draw R grade_weights g2 = Inr (en_final_grade row, gs')" by simp
    from grade_draw_returns[OF assms(2), of g2] obtain letter g3 where
      "weighted_draw R grade_weights g2 = Inr (letter, g3)"
      "letter \<in> {''A'', ''B'', ''C'', ''D'', ''E'', ''F''}" by blast
    with d have "en_final_grade row \<in> {''A'', ''B'', ''C'', ''D'', ''E'', ''F''}" by simp
    then have "en_final_grade row \<noteq> []" by auto
    with True show ?thesis by simp
  next
    case False
    with gr show ?thesis by simp
  qed
  from id st gr have "\<exists>g1 g2 g3.
            en_course_id row = c_id c \<and>
            weighted_draw R (status_weights (c_start_date c) (c_end_date c)) g1
            = Inr (en_status row, g2) \<and>
            (if en_status row = ''completed''
             then weighted_draw R grade_weights g2 = Inr (en_final_grade row, g3)
             else en_final_grade row = [] \<and> g3 = g2)" by blast
  with c iff show ?thesis by blast
qed

theorem generated_final_grade_iff_completed_witness:
  "(en_final_grade \<lparr>en_id = 1, en_student_id = 1, en_course_id = 2,
       en_enrollment_date = 738472, en_status = ''completed'', en_final_grade = ''A''\<rparr> \<noteq> []
    \<longleftrightarrow> en_status \<lparr>en_id = 1, en_student_id = 1, en_course_id = 2,
       en_enrollment_date = 738472, en_status = ''completed'', en_final_grade = ''A''\<rparr>
      = ''completed'') \<and>
   (\<exists>c\<in>set (courses example_db). \<exists>g1 g2 g3.
      en_course_id \<lparr>en_id = 1, en_student_id = 1, en_course_id = 2,
        en_enrollment_date = 738472, en_status = ''completed'', en_final_grade = ''A''\<rparr>
      = c_id c \<and>
      weighted_draw counter_source (status_weights (c_start_date c) (c_end_date c)) g1
      = Inr (en_status \<lparr>en_id = 1, en_student_id = 1, en_course_id = 2,
          en_enrollment_date = 738472, en_status = ''completed'', en_final_grade = ''A''\<rparr>, g2) \<and>
      (if en_status \<lparr>en_id = 1, en_student_id = 1, en_course_id = 2,
          en_enrollment_date = 738472, en_status = ''completed'', en_final_grade = ''A''\<rparr>
          = ''completed''
       then weighted_draw counter_source grade_weights g2
            = Inr (en_final_grade \<lparr>en_id = 1, en_student_id = 1, en_course_id = 2,
                en_enrollment_date = 738472, en_status = ''completed'',
                en_final_grade = ''A''\<rparr>, g3)
       else en_final_grade \<lparr>en_id = 1, en_student_id = 1, en_course_id = 2,
              en_enrollment_date = 738472, en_status = ''completed'', en_final_grade = ''A''\<rparr>
            = [] \<and> g3 = g2))"
  by (rule generated_final_grade_iff_completed
        [OF rng_ok_counter_source choices_ok_counter_source example_generation_run]) simp

text \<open>
  Claim C8. The enrollment date of every generated row lies between 30 days before the
  start of its course and the earlier of 20 days after the start and the end of the course,
  both included. (\<open>generate_enrollments_returns\<close>: on at least four courses with a window
  the generation returns its rows.)
\<close>

theorem generated_enrollment_date_in_window:
  assumes "rng_ok R"
    and "generate_enrollments R student_rows course_rows g = Inr (rows, g')"
    and "row \<in> set rows"
  shows "\<exists>c\<in>set course_rows. en_course_id row = c_id c \<and>
           c_start_date c - 30 \<le> en_enrollment_date row \<and>
           en_enrollment_date row \<le> min (c_start_date c + 20) (c_end_date c)"
proof -
  from generate_enrollments_origin[OF assms] obtain student c i gs gs' where
    c: "c \<in> set course_rows" and body: "enrollment_of R student c i gs = Inr (row, gs')"
    by blast
  from enrollment_of_draws[OF body] obtain g1 where
    id: "en_course_id row = c_id c"
    and d: "random_date_between R (c_start_date c - 30)
       (min (c_start_date c + 20) (c_end_date c)) gs
     = Inr (en_enrollment_date row, g1)"
    by blast
  from random_date_between_range[OF assms(1) d] id c show ?thesis by blast
qed

theorem generated_enrollment_date_in_window_witness:
  "\<exists>c\<in>set (courses example_db).
      en_course_id \<lparr>en_id = 1, en_student_id = 1, en_course_id = 2,
        en_enrollment_date = 738472, en_status = ''completed'', en_final_grade = ''A''\<rparr>
      = c_id c \<and>
      c_start_date c - 30
      \<le> en_enrollment_date \<lparr>en_id = 1, en_student_id = 1, en_course_id = 2,
          en_enrollment_date = 738472, en_status = ''completed'', en_final_grade = ''A''\<rparr> \<and>
      en_enrollment_date \<lparr>en_id = 1, en_student_id = 1, en_course_id = 2,
        en_enrollment_date = 738472, en_status = ''completed'', en_final_grade = ''A''\<rparr>
      \<le> min (c_start_date c + 20) (c_end_date c)"
  by (rule generated_enrollment_date_in_window
        [OF rng_ok_counter_source example_generation_run]) simp

end
